theory Spec2Isabelle
  imports Complex_Main
begin

text \<open>
  A shallow embedding of the inference pipeline of the Nuke ONNX plugin: the tensor
  utilities (\<^verbatim>\<open>TensorProcessor.h\<close>), the model handle (\<^verbatim>\<open>ONNXModelManager.h\<close>), the
  inference processor (\<^verbatim>\<open>ONNXInferenceProcessor.h\<close>), the operator's \<^verbatim>\<open>loadModel\<close>
  (\<^verbatim>\<open>ONNXRuntimeOp.cpp\<close>) and the image-to-tensor conversion (\<^verbatim>\<open>Utils.h\<close>). A function
  that can throw returns a sum, with the error on the left; a function that changes an
  object returns the object as it is left.
\<close>

section \<open>Machine numbers\<close>

text \<open>
  A C++ \<^verbatim>\<open>float\<close> is a finite value, one of the two infinities or a NaN. The finite
  values are kept as reals: the scans below only compare, copy and select values
  (\<^verbatim>\<open>std::min\<close>, \<^verbatim>\<open>std::max\<close>, \<^verbatim>\<open>==\<close>, \<^verbatim>\<open><\<close>), which IEEE arithmetic does exactly.
\<close>

datatype float32 = Finite real | PosInf | NegInf | NaN

definition isnan :: "float32 \<Rightarrow> bool" where
  "isnan v = (v = NaN)"

definition isinf :: "float32 \<Rightarrow> bool" where
  "isinf v = (v = PosInf \<or> v = NegInf)"

text \<open>\<^verbatim>\<open>operator<\<close> and \<^verbatim>\<open>operator==\<close> on floats: every comparison with a NaN is false.\<close>

fun flt_less :: "float32 \<Rightarrow> float32 \<Rightarrow> bool" where
  "flt_less NaN b = False"
| "flt_less a NaN = False"
| "flt_less (Finite a) (Finite b) = (a < b)"
| "flt_less (Finite a) PosInf = True"
| "flt_less (Finite a) NegInf = False"
| "flt_less PosInf b = False"
| "flt_less NegInf (Finite b) = True"
| "flt_less NegInf PosInf = True"
| "flt_less NegInf NegInf = False"

definition flt_eq :: "float32 \<Rightarrow> float32 \<Rightarrow> bool" where
  "flt_eq a b = (a \<noteq> NaN \<and> b \<noteq> NaN \<and> a = b)"

text \<open>\<^verbatim>\<open>std::min(a, b)\<close> is \<^verbatim>\<open>(b < a) ? b : a\<close> and \<^verbatim>\<open>std::max(a, b)\<close> is \<^verbatim>\<open>(a < b) ? b : a\<close>.\<close>

definition std_min :: "float32 \<Rightarrow> float32 \<Rightarrow> float32" where
  "std_min a b = (if flt_less b a then b else a)"

definition std_max :: "float32 \<Rightarrow> float32 \<Rightarrow> float32" where
  "std_max a b = (if flt_less a b then b else a)"

text \<open>\<^verbatim>\<open>std::numeric_limits<float>::max()\<close> is \<open>(2 - 2\<^sup>-\<^sup>2\<^sup>3) * 2\<^sup>1\<^sup>2\<^sup>7\<close>; \<^verbatim>\<open>lowest()\<close> is its negation.\<close>

definition FLT_MAX :: float32 where
  "FLT_MAX = Finite 340282346638528859811704183484516925440"

definition FLT_LOWEST :: float32 where
  "FLT_LOWEST = Finite (- 340282346638528859811704183484516925440)"

text \<open>
  A C++ \<^verbatim>\<open>int\<close> is 32 bits wide and \<^verbatim>\<open>size_t\<close> 64 bits, on every platform the plugin is
  built for. Their values are kept as HOL integers, with the wrap-around written out:
  \<open>int32\<close> is the value an \<^verbatim>\<open>int\<close> expression has in two's complement (also the result of
  \<^verbatim>\<open>static_cast<int>\<close> from a wider type), \<open>to_size_t\<close> the conversion of a signed value
  to \<^verbatim>\<open>size_t\<close>. C++ leaves the overflow of \<^verbatim>\<open>int\<close> arithmetic undefined; the model gives it
  the wrapped value, which is what the compiled multiplication and addition produce.
\<close>

definition int32 :: "int \<Rightarrow> int" where
  "int32 n = (n + 2 ^ 31) mod 2 ^ 32 - 2 ^ 31"

definition to_size_t :: "int \<Rightarrow> nat" where
  "to_size_t n = nat (n mod 2 ^ 64)"

text \<open>
  The first five values are the five exception classes of \<^verbatim>\<open>ErrorHandling.h\<close>, in the order
  of that file: \<^verbatim>\<open>ModelLoadException\<close>, \<^verbatim>\<open>InferenceException\<close>, \<^verbatim>\<open>ConfigurationException\<close>,
  \<^verbatim>\<open>PreprocessException\<close> and \<^verbatim>\<open>InvalidArgumentException\<close>. Each derives from
  \<^verbatim>\<open>ONNXPluginError\<close>, which derives from \<^verbatim>\<open>std::runtime_error\<close>, so a handler for
  \<^verbatim>\<open>ONNXPluginError\<close> and a handler for \<^verbatim>\<open>std::exception\<close> catch all five. The message an
  exception carries is not kept. The last three values are no plugin errors: an exception
  of the inference engine (\<^verbatim>\<open>Ort::Exception\<close>), one of the standard library
  (\<^verbatim>\<open>std::length_error\<close>), and an access outside a vector, which C++ leaves undefined and
  no handler catches.
\<close>

datatype error =
    ModelLoadError
  | InferenceError
  | ConfigurationError
  | PreprocessError
  | InvalidArgumentError
  | EngineError
  | StdError
  | OutOfBounds

section \<open>TensorProcessor\<close>

subsection \<open>findMinMax\<close>

text \<open>
  The range-for loop of \<^verbatim>\<open>findMinMax\<close>, with the running \<^verbatim>\<open>minValue\<close> and
  \<^verbatim>\<open>maxValue\<close> as the accumulator: a NaN or infinite sample is skipped.
\<close>

fun scanMinMax :: "float32 list \<Rightarrow> float32 \<times> float32 \<Rightarrow> float32 \<times> float32" where
  "scanMinMax [] acc = acc"
| "scanMinMax (v # vs) (minValue, maxValue) =
     (if isnan v \<or> isinf v then scanMinMax vs (minValue, maxValue)
      else scanMinMax vs (std_min minValue v, std_max maxValue v))"

text \<open>The two output parameters \<^verbatim>\<open>minValue\<close> and \<^verbatim>\<open>maxValue\<close> are returned as a pair.\<close>

definition findMinMax :: "float32 list \<Rightarrow> float32 \<times> float32" where
  "findMinMax tensorData =
     (if tensorData = [] then (Finite 0, Finite 1)
      else
        (case scanMinMax tensorData (FLT_MAX, FLT_LOWEST) of
          (minValue, maxValue) \<Rightarrow>
            if flt_eq minValue maxValue \<or> isnan minValue \<or> isinf minValue \<or>
               isnan maxValue \<or> isinf maxValue
            then (Finite 0, Finite 1)
            else (minValue, maxValue)))"

subsection \<open>findMinMaxMultiChannel\<close>

text \<open>
  The loop over the channel indices \<open>cs\<close>, with the pair of \<^verbatim>\<open>minValue\<close> and \<^verbatim>\<open>maxValue\<close>
  as the accumulator \<open>acc\<close>. \<^verbatim>\<open>startIdx\<close> and \<^verbatim>\<open>endIdx\<close> are computed in \<^verbatim>\<open>size_t\<close>; the inner loop scans
  the elements from \<^verbatim>\<open>startIdx\<close> up to \<^verbatim>\<open>endIdx\<close>, which is at most the buffer length. A
  channel whose scan leaves a sentinel in place contributes nothing.
\<close>

primrec multiChannelLoop ::
  "float32 list \<Rightarrow> nat \<Rightarrow> nat list \<Rightarrow> float32 \<times> float32 \<Rightarrow> float32 \<times> float32" where
  "multiChannelLoop tensorData pointsPerChannel [] acc = acc"
| "multiChannelLoop tensorData pointsPerChannel (c # cs) acc =
     (let startIdx = (c * pointsPerChannel) mod 2 ^ 64;
          endIdx = min ((startIdx + pointsPerChannel) mod 2 ^ 64) (length tensorData)
      in if startIdx \<ge> length tensorData
         then multiChannelLoop tensorData pointsPerChannel cs acc
         else
           (case scanMinMax (map (\<lambda>i. tensorData ! i) [startIdx..<endIdx])
                   (FLT_MAX, FLT_LOWEST) of
             (channelMin, channelMax) \<Rightarrow>
               if \<not> flt_eq channelMin FLT_MAX \<and> \<not> flt_eq channelMax FLT_LOWEST
               then multiChannelLoop tensorData pointsPerChannel cs
                      (std_min (fst acc) channelMin, std_max (snd acc) channelMax)
               else multiChannelLoop tensorData pointsPerChannel cs acc))"

text \<open>
  The float addition of \<^verbatim>\<open>maxValue = minValue + 1.0f\<close> rounds; it is the parameter \<open>fadd\<close>.
\<close>

definition findMinMaxMultiChannel ::
  "(float32 \<Rightarrow> float32 \<Rightarrow> float32) \<Rightarrow> float32 list \<Rightarrow> int \<Rightarrow> int \<Rightarrow> int \<Rightarrow>
     float32 \<times> float32" where
  "findMinMaxMultiChannel fadd tensorData channelCount width height =
     (if tensorData = [] \<or> width \<le> 0 \<or> height \<le> 0 \<or> channelCount \<le> 0
      then (Finite 0, Finite 1)
      else
        (case multiChannelLoop tensorData (to_size_t (int32 (width * height)))
                [0..<nat channelCount] (FLT_MAX, FLT_LOWEST) of
          (minValue, maxValue) \<Rightarrow>
            if flt_eq minValue FLT_MAX \<or> flt_eq maxValue FLT_LOWEST \<or> isnan minValue \<or>
               isinf minValue \<or> isnan maxValue \<or> isinf maxValue
            then (Finite 0, Finite 1)
            else if flt_eq minValue maxValue then (minValue, fadd minValue (Finite 1))
            else (minValue, maxValue)))"

subsection \<open>normalize (here \<open>normalize_f\<close>)\<close>




subsection \<open>getTensorValue\<close>

text \<open>
  The plane start \<^verbatim>\<open>size_t offset = channelIdx * height * width\<close>: the product is computed
  in \<^verbatim>\<open>int\<close> and then converted.
\<close>

definition planeOffset :: "int \<Rightarrow> int \<Rightarrow> int \<Rightarrow> nat" where
  "planeOffset channelIdx height width = to_size_t (int32 (int32 (channelIdx * height) * width))"



section \<open>The inference engine, as the code uses it\<close>

text \<open>
  ONNX Runtime is an external library. A session reports, for every input and output
  slot, a name and a shape (\<open>None\<close>: the query of the slot's tensor type throws), and runs
  a list of named input tensors against a list of requested output names (\<open>None\<close>:
  \<^verbatim>\<open>Run\<close> throws). A shape is a \<^verbatim>\<open>std::vector<int64_t>\<close>. The numbers of inputs,
  outputs and slots are far below \<open>2\<^sup>3\<^sup>1\<close>, so their conversions between \<^verbatim>\<open>size_t\<close> and
  \<^verbatim>\<open>int\<close> are exact and not written out.
\<close>

type_synonym dims = "int list"

datatype OrtValue = Tensor dims "float32 list" | NonTensor

record Session =
  inputInfo :: "(string \<times> dims option) list"
  outputInfo :: "(string \<times> dims option) list"
  Run :: "(string \<times> float32 list \<times> dims) list \<Rightarrow> string list \<Rightarrow> OrtValue list option"

text \<open>
  \<open>createSession\<close> is the constructor \<^verbatim>\<open>Ort::Session(env, modelPath, options)\<close> together
  with the session options (\<open>None\<close>: it throws); \<open>createTensor\<close> tells whether
  \<^verbatim>\<open>Ort::Value::CreateTensor<float>\<close> accepts a buffer with a shape (\<open>False\<close>: it throws).
\<close>

record Engine =
  createSession :: "string \<Rightarrow> bool \<Rightarrow> Session option"
  createTensor :: "float32 list \<Rightarrow> dims \<Rightarrow> bool"

section \<open>ONNXModelManager\<close>

text \<open>The private member \<^verbatim>\<open>_x\<close> of the class is the field \<open>mm_x\<close>.\<close>

record ONNXModelManager =
  mm_session :: "Session option"
  mm_modelLoaded :: bool
  mm_inputNames :: "string list"
  mm_outputNames :: "string list"
  mm_inputDims :: "dims list"
  mm_outputDims :: "dims list"

definition newModelManager :: ONNXModelManager where
  "newModelManager =
     \<lparr>mm_session = None, mm_modelLoaded = False, mm_inputNames = [], mm_outputNames = [],
      mm_inputDims = [], mm_outputDims = []\<rparr>"

definition isLoaded :: "ONNXModelManager \<Rightarrow> bool" where
  "isLoaded m = mm_modelLoaded m"

definition getInputCount :: "ONNXModelManager \<Rightarrow> int" where
  "getInputCount m = int (length (mm_inputNames m))"

definition unload :: "ONNXModelManager \<Rightarrow> ONNXModelManager" where
  "unload m =
     m\<lparr>mm_session := None, mm_inputNames := [], mm_outputNames := [], mm_inputDims := [],
       mm_outputDims := [], mm_modelLoaded := False\<rparr>"

text \<open>
  One of the two loops of \<^verbatim>\<open>extractModelInfo\<close>, over the slots from index \<open>i\<close> on: the
  name of slot \<open>i\<close> is stored first, then its shape is queried. The flag is \<open>False\<close> when
  a query threw; the vectors are then left as they were at that moment.
\<close>

primrec extractSlots ::
  "(string \<times> dims option) list \<Rightarrow> nat \<Rightarrow> string list \<Rightarrow> dims list \<Rightarrow>
     bool \<times> string list \<times> dims list" where
  "extractSlots [] i names ds = (True, names, ds)"
| "extractSlots (slot # slots) i names ds =
     (case snd slot of
       None \<Rightarrow> (False, names[i := fst slot], ds)
     | Some d \<Rightarrow> extractSlots slots (Suc i) (names[i := fst slot]) (ds[i := d]))"

definition extractModelInfo :: "Session \<Rightarrow> ONNXModelManager \<Rightarrow> bool \<times> ONNXModelManager" where
  "extractModelInfo s m =
     (let m0 = m\<lparr>mm_inputNames := [], mm_outputNames := [], mm_inputDims := [],
                 mm_outputDims := []\<rparr>;
          inputCount = length (inputInfo s);
          outputCount = length (outputInfo s)
      in case extractSlots (inputInfo s) 0 (replicate inputCount []) (replicate inputCount []) of
           (okIn, names, ds) \<Rightarrow>
             (let m1 = m0\<lparr>mm_inputNames := names, mm_inputDims := ds\<rparr>
              in if \<not> okIn then (False, m1)
                 else
                   (case extractSlots (outputInfo s) 0 (replicate outputCount [])
                           (replicate outputCount []) of
                     (okOut, onames, ods) \<Rightarrow>
                       (okOut, m1\<lparr>mm_outputNames := onames, mm_outputDims := ods\<rparr>))))"

text \<open>
  \<^verbatim>\<open>load\<close> returns the exception it throws, if any, and the handle as it is left. Both
  handlers turn what the engine throws into a \<^verbatim>\<open>ModelLoadException\<close>.
\<close>

definition load :: "Engine \<Rightarrow> string \<Rightarrow> bool \<Rightarrow> ONNXModelManager \<Rightarrow> error option \<times> ONNXModelManager" where
  "load eng modelPath useGPU m =
     (let m1 = (if mm_modelLoaded m then unload m else m);
          m2 = m1\<lparr>mm_modelLoaded := False\<rparr>
      in case createSession eng modelPath useGPU of
           None \<Rightarrow> (Some ModelLoadError, m2)
         | Some s \<Rightarrow>
             (case extractModelInfo s (m2\<lparr>mm_session := Some s\<rparr>) of
               (ok, m3) \<Rightarrow>
                 if ok then (None, m3\<lparr>mm_modelLoaded := True\<rparr>)
                 else (Some ModelLoadError, m3)))"

text \<open>
  \<^verbatim>\<open>getOutputDimensions(width, height, channels)\<close>: \<open>None\<close> is the result \<^verbatim>\<open>false\<close>, which
  leaves the three references untouched; otherwise \<open>(width, height, channels)\<close>.
\<close>

definition getOutputDimensions :: "ONNXModelManager \<Rightarrow> (int \<times> int \<times> int) option" where
  "getOutputDimensions m =
     (if \<not> mm_modelLoaded m \<or> mm_outputDims m = [] \<or> mm_outputDims m ! 0 = [] then None
      else
        (let d = mm_outputDims m ! 0
         in if length d = 4 then Some (int32 (d ! 3), int32 (d ! 2), int32 (d ! 1))
            else if length d = 3 then Some (int32 (d ! 2), int32 (d ! 1), int32 (d ! 0))
            else None))"

text \<open>
  The end of both inference entry points, from \<^verbatim>\<open>// Process output\<close> on: the first output
  must be a tensor, its shape overwrites \<^verbatim>\<open>_outputDims[0]\<close> and its data is the result.
\<close>

definition processOutput ::
  "OrtValue list \<Rightarrow> ONNXModelManager \<Rightarrow> error + (ONNXModelManager \<times> float32 list)" where
  "processOutput outputTensors m =
     (case outputTensors of
       [] \<Rightarrow> Inl InferenceError
     | NonTensor # rest \<Rightarrow> Inl InferenceError
     | Tensor outputShape outputData # rest \<Rightarrow>
         if mm_outputDims m = [] then Inl OutOfBounds
         else Inr (m\<lparr>mm_outputDims := (mm_outputDims m)[0 := outputShape]\<rparr>, outputData))"

text \<open>\<^verbatim>\<open>ONNXModelManager::runInference\<close>, the single-input path.\<close>

definition managerRunInference ::
  "Engine \<Rightarrow> float32 list \<Rightarrow> dims \<Rightarrow> ONNXModelManager \<Rightarrow>
     error + (ONNXModelManager \<times> float32 list)" where
  "managerRunInference eng inputTensor inputShape m =
     (case mm_session m of
       None \<Rightarrow> Inl InferenceError
     | Some s \<Rightarrow>
         if \<not> mm_modelLoaded m then Inl InferenceError
         else if \<not> createTensor eng inputTensor inputShape then Inl EngineError
         else if mm_inputNames m = [] \<or> mm_outputNames m = [] then Inl OutOfBounds
         else
           (case Run s [(mm_inputNames m ! 0, inputTensor, inputShape)] [mm_outputNames m ! 0] of
             None \<Rightarrow> Inl EngineError
           | Some outputTensors \<Rightarrow> processOutput outputTensors m))"

text \<open>
  The name the multi-input path binds input \<open>i\<close> to: the search through \<^verbatim>\<open>_inputNames\<close>
  runs only for a non-empty supplied name and stops at the first equal name; without a
  match the name is \<^verbatim>\<open>_inputNames[i]\<close>.
\<close>

definition resolveInputName :: "string list \<Rightarrow> string \<Rightarrow> nat \<Rightarrow> string" where
  "resolveInputName declared supplied i =
     (case (if supplied \<noteq> [] then find (\<lambda>n. n = supplied) declared else None) of
       Some n \<Rightarrow> n
     | None \<Rightarrow> declared ! i)"

text \<open>
  The loop of \<^verbatim>\<open>runInferenceMultiInput\<close> over the indices \<open>is\<close>: it creates the tensor of
  input \<open>i\<close> and resolves its name. It reads \<^verbatim>\<open>inputTensors[i]\<close> and \<^verbatim>\<open>inputShapes[i]\<close>
  for every \<open>i\<close> below the number of supplied names.
\<close>

primrec bindInputs ::
  "Engine \<Rightarrow> string list \<Rightarrow> float32 list list \<Rightarrow> dims list \<Rightarrow> string list \<Rightarrow> nat list \<Rightarrow>
     error + (string \<times> float32 list \<times> dims) list" where
  "bindInputs eng declared inputTensors inputShapes inputNames [] = Inr []"
| "bindInputs eng declared inputTensors inputShapes inputNames (i # is) =
     (if i \<ge> length inputTensors \<or> i \<ge> length inputShapes then Inl OutOfBounds
      else if \<not> createTensor eng (inputTensors ! i) (inputShapes ! i) then Inl EngineError
      else
        (case bindInputs eng declared inputTensors inputShapes inputNames is of
          Inl e \<Rightarrow> Inl e
        | Inr bound \<Rightarrow>
            Inr ((resolveInputName declared (inputNames ! i) i, inputTensors ! i,
                  inputShapes ! i) # bound)))"

definition runInferenceMultiInput ::
  "Engine \<Rightarrow> float32 list list \<Rightarrow> dims list \<Rightarrow> string list \<Rightarrow> ONNXModelManager \<Rightarrow>
     error + (ONNXModelManager \<times> float32 list)" where
  "runInferenceMultiInput eng inputTensors inputShapes inputNames m =
     (case mm_session m of
       None \<Rightarrow> Inl InferenceError
     | Some s \<Rightarrow>
         if \<not> mm_modelLoaded m then Inl InferenceError
         else if inputTensors = [] \<or> length inputTensors \<noteq> length inputShapes
           then Inl InvalidArgumentError
         else if length inputNames > length (mm_inputNames m) then Inl InvalidArgumentError
         else
           (case bindInputs eng (mm_inputNames m) inputTensors inputShapes inputNames
                   [0..<length inputNames] of
             Inl e \<Rightarrow> Inl e
           | Inr bound \<Rightarrow>
               if mm_outputNames m = [] then Inl OutOfBounds
               else
                 (case Run s bound [mm_outputNames m ! 0] of
                   None \<Rightarrow> Inl EngineError
                 | Some outputTensors \<Rightarrow> processOutput outputTensors m)))"

section \<open>ONNXInferenceProcessor\<close>

text \<open>\<^verbatim>\<open>TensorProcessor::InputTensorInfo\<close>, and the value its constructor builds.\<close>

record InputTensorInfo =
  data :: "float32 list"
  shape :: dims
  name :: string
  valid :: bool

definition newInputTensorInfo :: InputTensorInfo where
  "newInputTensorInfo = \<lparr>data = [], shape = [], name = [], valid = False\<rparr>"

text \<open>
  The private member \<^verbatim>\<open>_x\<close> of the processor is the field \<open>ip_x\<close>. The member
  \<^verbatim>\<open>_modelManager\<close> is a pointer to a handle the operator owns: the functions below take
  the pointee as an argument (\<open>None\<close> is the null pointer) and return it when they change it.
\<close>

record ONNXInferenceProcessor =
  ip_inputTensors :: "InputTensorInfo list"
  ip_width :: int
  ip_height :: int
  ip_channels :: int
  ip_outputWidth :: int
  ip_outputHeight :: int
  ip_outputChannels :: int
  ip_isSingleChannel :: bool

definition newInferenceProcessor :: ONNXInferenceProcessor where
  "newInferenceProcessor =
     \<lparr>ip_inputTensors = [], ip_width = 0, ip_height = 0, ip_channels = 0, ip_outputWidth = 0,
      ip_outputHeight = 0, ip_outputChannels = 0, ip_isSingleChannel = True\<rparr>"

definition setInputDimensions ::
  "int \<Rightarrow> int \<Rightarrow> int \<Rightarrow> ONNXInferenceProcessor \<Rightarrow> error + ONNXInferenceProcessor" where
  "setInputDimensions w h c p =
     (if w \<le> 0 \<or> h \<le> 0 \<or> c \<le> 0 then Inl ConfigurationError
      else Inr (p\<lparr>ip_width := w, ip_height := h, ip_channels := c\<rparr>))"

text \<open>The body of the loop of \<^verbatim>\<open>prepareInputs\<close> for slot \<open>i\<close>, applied to \<^verbatim>\<open>_inputTensors[i]\<close>.\<close>

definition prepareSlot ::
  "ONNXModelManager \<Rightarrow> ONNXInferenceProcessor \<Rightarrow> nat \<Rightarrow> InputTensorInfo \<Rightarrow> InputTensorInfo" where
  "prepareSlot m p i t =
     (let modelInputNames = mm_inputNames m;
          modelInputDims = mm_inputDims m;
          t1 = t\<lparr>name := (if i < length modelInputNames then modelInputNames ! i else [])\<rparr>;
          t2 = (if i < length modelInputDims \<and> modelInputDims ! i \<noteq> [] then
                  (let t3 = t1\<lparr>shape := modelInputDims ! i\<rparr>
                   in if length (shape t3) \<ge> 4
                      then t3\<lparr>shape := (shape t3)[2 := ip_height p, 3 := ip_width p]\<rparr>
                      else t3)
                else t1\<lparr>shape := [1, ip_channels p, ip_height p, ip_width p]\<rparr>)
      in t2\<lparr>valid := False\<rparr>)"

primrec prepareLoop ::
  "ONNXModelManager \<Rightarrow> ONNXInferenceProcessor \<Rightarrow> nat list \<Rightarrow> InputTensorInfo list \<Rightarrow>
     InputTensorInfo list" where
  "prepareLoop m p [] ts = ts"
| "prepareLoop m p (i # is) ts = prepareLoop m p is (ts[i := prepareSlot m p i (ts ! i)])"

text \<open>
  \<^verbatim>\<open>prepareInputs\<close>: the slots are cleared and resized to \<open>inputCount\<close> fresh entries, then
  the loop runs over \<open>0 \<le> i < inputCount\<close>.
\<close>

definition prepareInputs ::
  "ONNXModelManager option \<Rightarrow> int \<Rightarrow> ONNXInferenceProcessor \<Rightarrow> error + ONNXInferenceProcessor" where
  "prepareInputs mgr inputCount p =
     (case mgr of
       None \<Rightarrow> Inl ConfigurationError
     | Some m \<Rightarrow>
         if \<not> isLoaded m then Inl ConfigurationError
         else if inputCount \<le> 0 then Inl InvalidArgumentError
         else
           Inr (p\<lparr>ip_inputTensors :=
                  prepareLoop m p [0..<nat inputCount]
                    (replicate (nat inputCount) newInputTensorInfo)\<rparr>))"

definition setInputTensorData ::
  "int \<Rightarrow> float32 list \<Rightarrow> ONNXInferenceProcessor \<Rightarrow> error + ONNXInferenceProcessor" where
  "setInputTensorData inputIndex d p =
     (if inputIndex < 0 \<or> inputIndex \<ge> int (length (ip_inputTensors p)) then Inl InvalidArgumentError
      else if d = [] then Inl InvalidArgumentError
      else
        Inr (p\<lparr>ip_inputTensors :=
               (ip_inputTensors p)[nat inputIndex :=
                 (ip_inputTensors p ! nat inputIndex)\<lparr>data := d, valid := True\<rparr>]\<rparr>))"

text \<open>
  The collecting loop of \<^verbatim>\<open>runInference\<close>: the data, shape and name of every valid slot,
  in index order; a valid slot with empty data or an empty shape throws.
\<close>

primrec collectValid :: "InputTensorInfo list \<Rightarrow> error + (float32 list \<times> dims \<times> string) list" where
  "collectValid [] = Inr []"
| "collectValid (t # ts) =
     (if valid t then
        (if data t = [] then Inl ConfigurationError
         else if shape t = [] then Inl ConfigurationError
         else
           (case collectValid ts of
             Inl e \<Rightarrow> Inl e
           | Inr rest \<Rightarrow> Inr ((data t, shape t, name t) # rest)))
      else collectValid ts)"

text \<open>
  The handlers around the two calls of the handle turn every exception into an
  \<^verbatim>\<open>InferenceException\<close>; an access outside a vector is no exception. The outer handlers
  rethrow \<^verbatim>\<open>ConfigurationException\<close> and \<^verbatim>\<open>InferenceException\<close> and wrap the rest.
\<close>

fun innerCatch :: "error \<Rightarrow> error" where
  "innerCatch OutOfBounds = OutOfBounds"
| "innerCatch e = InferenceError"

fun outerCatch :: "error \<Rightarrow> error" where
  "outerCatch ConfigurationError = ConfigurationError"
| "outerCatch InferenceError = InferenceError"
| "outerCatch OutOfBounds = OutOfBounds"
| "outerCatch e = InferenceError"

text \<open>
  The block of \<^verbatim>\<open>runInference\<close> after the run, from
  \<^verbatim>\<open>// Calculate output dimensions based on result\<close> on: the three members are first set to
  their defaults, then overwritten from the handle's first output shape.
\<close>

definition updateOutputGeometry ::
  "ONNXModelManager \<Rightarrow> ONNXInferenceProcessor \<Rightarrow> ONNXInferenceProcessor" where
  "updateOutputGeometry m p =
     (let p1 = p\<lparr>ip_outputWidth := ip_width p, ip_outputHeight := ip_height p,
                 ip_outputChannels := 1\<rparr>;
          outputDims = mm_outputDims m;
          p2 = (if outputDims \<noteq> [] \<and> outputDims ! 0 \<noteq> [] then
                  (let d = outputDims ! 0
                   in if length d \<ge> 4 then
                        p1\<lparr>ip_outputChannels := int32 (d ! 1), ip_outputHeight := int32 (d ! 2),
                           ip_outputWidth := int32 (d ! 3)\<rparr>
                      else if length d = 3 then
                        p1\<lparr>ip_outputChannels := int32 (d ! 0), ip_outputHeight := int32 (d ! 1),
                           ip_outputWidth := int32 (d ! 2)\<rparr>
                      else if length d = 2 then
                        p1\<lparr>ip_outputChannels := 1, ip_outputHeight := int32 (d ! 0),
                           ip_outputWidth := int32 (d ! 1)\<rparr>
                      else p1)
                else p1)
      in p2\<lparr>ip_isSingleChannel := (ip_outputChannels p2 = 1)\<rparr>)"

text \<open>
  \<^verbatim>\<open>ONNXInferenceProcessor::runInference\<close>: on success the processor, the handle and the
  output buffer as they are left.
\<close>

definition runInference ::
  "Engine \<Rightarrow> ONNXModelManager option \<Rightarrow> ONNXInferenceProcessor \<Rightarrow>
     error + (ONNXInferenceProcessor \<times> ONNXModelManager \<times> float32 list)" where
  "runInference eng mgr p =
     (case mgr of
       None \<Rightarrow> Inl ConfigurationError
     | Some m \<Rightarrow>
         if \<not> isLoaded m then Inl ConfigurationError
         else
           (case collectValid (ip_inputTensors p) of
             Inl e \<Rightarrow> Inl (outerCatch e)
           | Inr collected \<Rightarrow>
               if collected = [] then Inl (outerCatch ConfigurationError)
               else
                 (case (if length collected > 1 then
                          runInferenceMultiInput eng (map fst collected)
                            (map (fst \<circ> snd) collected) (map (snd \<circ> snd) collected) m
                        else
                          managerRunInference eng (fst (hd collected))
                            (fst (snd (hd collected))) m) of
                   Inl e \<Rightarrow> Inl (outerCatch (innerCatch e))
                 | Inr (m', outputTensor) \<Rightarrow>
                     Inr (updateOutputGeometry m' p, m', outputTensor))))"

section \<open>ONNXRuntimeOp: loading a model\<close>

text \<open>
  The members of the operator that \<^verbatim>\<open>loadModel\<close> reads or writes; \<^verbatim>\<open>_x\<close> is the field
  \<open>op_x\<close>. \<^verbatim>\<open>_modelPath\<close> is a C string (\<open>None\<close>: the null pointer). The host's \<^verbatim>\<open>error\<close>
  and \<^verbatim>\<open>warning\<close> calls only report a message.
\<close>

record ONNXRuntimeOp =
  op_modelPath :: "string option"
  op_useGPU :: bool
  op_isSingleChannel :: bool
  op_outputChannelCount :: int
  op_imgWidth :: int
  op_imgHeight :: int
  op_outputWidth :: int
  op_outputHeight :: int
  op_modelManager :: ONNXModelManager
  op_cacheValid :: bool
  op_processingDone :: bool
  op_processedData :: "float32 list"
  op_activeInputs :: int

definition maximum_inputs :: int where
  "maximum_inputs = 10"

definition updateActiveInputs :: "ONNXRuntimeOp \<Rightarrow> ONNXRuntimeOp" where
  "updateActiveInputs op =
     (if \<not> isLoaded (op_modelManager op) then op\<lparr>op_activeInputs := 1\<rparr>
      else
        (let modelInputCount = getInputCount (op_modelManager op);
             op1 = op\<lparr>op_activeInputs := min modelInputCount maximum_inputs\<rparr>
         in if op_activeInputs op1 < 1 then op1\<lparr>op_activeInputs := 1\<rparr> else op1))"

text \<open>
  \<^verbatim>\<open>loadModel\<close> returns the exception it throws, if any, and the operator as it is left.
  A handle that loaded a model without inputs is unloaded again.
\<close>

definition loadModel :: "Engine \<Rightarrow> ONNXRuntimeOp \<Rightarrow> error option \<times> ONNXRuntimeOp" where
  "loadModel eng op =
     (let op1 = op\<lparr>op_processedData := []\<rparr>
      in case op_modelPath op1 of
           None \<Rightarrow> (Some ConfigurationError, op1)
         | Some path \<Rightarrow>
             if path = [] then (Some ConfigurationError, op1)
             else
               (case load eng path (op_useGPU op1) (op_modelManager op1) of
                 (Some e, m) \<Rightarrow> (Some e, op1\<lparr>op_modelManager := m\<rparr>)
               | (None, m) \<Rightarrow>
                   if getInputCount m \<le> 0
                   then (Some ModelLoadError, op1\<lparr>op_modelManager := unload m\<rparr>)
                   else
                     (let op2 = op1\<lparr>op_modelManager := m\<rparr>;
                          op3 =
                            (case getOutputDimensions m of
                              Some (w, h, c) \<Rightarrow>
                                op2\<lparr>op_outputWidth := w, op_outputHeight := h,
                                    op_outputChannelCount := c, op_isSingleChannel := (c = 1)\<rparr>
                            | None \<Rightarrow>
                                op2\<lparr>op_outputWidth :=
                                      (if op_imgWidth op2 > 0 then op_imgWidth op2 else 0),
                                    op_outputHeight :=
                                      (if op_imgHeight op2 > 0 then op_imgHeight op2 else 0),
                                    op_outputChannelCount := 1, op_isSingleChannel := True\<rparr>);
                          op4 = updateActiveInputs op3
                      in (None, op4\<lparr>op_cacheValid := False, op_processingDone := False\<rparr>))))"

section \<open>A concrete engine and concrete states, for the examples\<close>

text \<open>
  An engine that accepts every tensor and whose one session declares the inputs \<open>img\<close> and
  \<open>aux\<close> and the output \<open>out\<close> with a dynamic shape. Run on the single buffer \<open>[0.0]\<close> it
  returns a tensor of shape \<open>[1, 3, 1, 2]\<close>, on the single buffer \<open>[2.0]\<close> one of shape
  \<open>[1, 2, 3, 4, 5]\<close>, on anything else a vector of shape \<open>[5]\<close>.
\<close>

definition exampleSession :: Session where
  "exampleSession =
     \<lparr>inputInfo = [(''img'', Some [1, 3, - 1, - 1]), (''aux'', Some [1, 1, - 1, - 1])],
      outputInfo = [(''out'', Some [- 1, - 1, - 1, - 1])],
      Run = (\<lambda>inputs outputs.
               if map (fst \<circ> snd) inputs = [[Finite 0]]
               then Some [Tensor [1, 3, 1, 2] (replicate 6 (Finite 0))]
               else if map (fst \<circ> snd) inputs = [[Finite 2]]
               then Some [Tensor [1, 2, 3, 4, 5] (replicate 120 (Finite 0))]
               else Some [Tensor [5] (replicate 5 (Finite 0))])\<rparr>"

definition exampleEngine :: Engine where
  "exampleEngine =
     \<lparr>createSession = (\<lambda>path useGPU. Some exampleSession), createTensor = (\<lambda>buf d. True)\<rparr>"

text \<open>The handle after \<open>load\<close> of that model, and a processor with one filled slot.\<close>

definition exampleManager :: ONNXModelManager where
  "exampleManager =
     \<lparr>mm_session = Some exampleSession, mm_modelLoaded = True,
      mm_inputNames = [''img'', ''aux''], mm_outputNames = [''out''],
      mm_inputDims = [[1, 3, - 1, - 1], [1, 1, - 1, - 1]],
      mm_outputDims = [[- 1, - 1, - 1, - 1]]\<rparr>"

definition exampleProcessor :: ONNXInferenceProcessor where
  "exampleProcessor =
     \<lparr>ip_inputTensors = [\<lparr>data = [Finite 0], shape = [1, 1, 1, 1], name = ''img'', valid = True\<rparr>],
      ip_width = 64, ip_height = 32, ip_channels = 3, ip_outputWidth = 0,
      ip_outputHeight = 0, ip_outputChannels = 0, ip_isSingleChannel = True\<rparr>"

text \<open>An engine whose model has no input at all (a graph of constants).\<close>

definition constantEngine :: Engine where
  "constantEngine =
     \<lparr>createSession =
        (\<lambda>path useGPU.
           Some \<lparr>inputInfo = [], outputInfo = [(''out'', Some [1, 1, 2, 2])],
                 Run = (\<lambda>inputs outputs. Some [Tensor [1, 1, 2, 2] (replicate 4 (Finite 0))])\<rparr>),
      createTensor = (\<lambda>buf d. True)\<rparr>"

text \<open>An operator as its constructor leaves it, with a model path set.\<close>

definition exampleOp :: ONNXRuntimeOp where
  "exampleOp =
     \<lparr>op_modelPath = Some ''model.onnx'', op_useGPU = False, op_isSingleChannel = True,
      op_outputChannelCount = 1, op_imgWidth = 0, op_imgHeight = 0, op_outputWidth = 0,
      op_outputHeight = 0, op_modelManager = newModelManager, op_cacheValid = False,
      op_processingDone = False, op_processedData = [], op_activeInputs = 1\<rparr>"

section \<open>Utils::tileToNCHWTensor\<close>

text \<open>
  The host's image region (\<^verbatim>\<open>DD::Image::Tile\<close>), as the function reads it: the lower left
  corner of its box, the set of channels it holds, and for a channel and a row the pointer
  \<^verbatim>\<open>tile[chan][y]\<close> to that row (\<open>None\<close>: a null pointer), which is indexed by the absolute
  column.
\<close>

datatype Channel = Chan_Red | Chan_Green | Chan_Blue | Chan_Alpha | Chan_Other nat

record Tile =
  tile_x :: int
  tile_y :: int
  tile_channels :: "Channel set"
  tile_rows :: "Channel \<Rightarrow> int \<Rightarrow> (int \<Rightarrow> float32) option"

text \<open>
  \<^verbatim>\<open>std::vector<float>::resize(n)\<close>: the first \<open>n\<close> elements are kept and new elements are
  zero; a size above \<^verbatim>\<open>max_size()\<close> throws \<^verbatim>\<open>std::length_error\<close>. The sizes that occur
  are below \<open>2\<^sup>3\<^sup>1\<close> or, for a negative \<^verbatim>\<open>int\<close>, at least \<open>2\<^sup>6\<^sup>4 - 2\<^sup>3\<^sup>1\<close>.
\<close>

definition vector_max_size :: nat where
  "vector_max_size = 2 ^ 61 - 1"

definition resize :: "float32 list \<Rightarrow> nat \<Rightarrow> error + float32 list" where
  "resize v n =
     (if n > vector_max_size then Inl StdError
      else Inr (take n v @ replicate (n - length v) (Finite 0)))"

text \<open>
  \<^verbatim>\<open>std::fill(tensor.begin() + offset, tensor.begin() + offset + count, 0.0f)\<close>; a range that
  is not inside the vector is undefined.
\<close>

definition fillZero :: "float32 list \<Rightarrow> nat \<Rightarrow> int \<Rightarrow> error + float32 list" where
  "fillZero tensor offset count =
     (if count < 0 \<or> offset + nat count > length tensor then Inl OutOfBounds
      else
        Inr (take offset tensor @ replicate (nat count) (Finite 0) @
             drop (offset + nat count) tensor))"

text \<open>The \<^verbatim>\<open>switch\<close> on the channel index; \<open>None\<close> is the \<^verbatim>\<open>default: continue\<close>.\<close>

definition channelOf :: "int \<Rightarrow> Channel option" where
  "channelOf c =
     (if c = 0 then Some Chan_Red
      else if c = 1 then Some Chan_Green
      else if c = 2 then Some Chan_Blue
      else if c = 3 then Some Chan_Alpha
      else None)"

text \<open>\<^verbatim>\<open>size_t dstIdx = c * height * width + h * width + w\<close>, computed in \<^verbatim>\<open>int\<close>.\<close>

definition dstIdx :: "int \<Rightarrow> int \<Rightarrow> int \<Rightarrow> int \<Rightarrow> int \<Rightarrow> nat" where
  "dstIdx c h w width height =
     to_size_t (int32 (int32 (int32 (int32 (c * height) * width) + int32 (h * width)) + w))"

text \<open>The innermost loop, over the columns \<open>ws\<close> of one row.\<close>

primrec copyRow ::
  "(int \<Rightarrow> float32) \<Rightarrow> int \<Rightarrow> int \<Rightarrow> int \<Rightarrow> int \<Rightarrow> int \<Rightarrow> nat list \<Rightarrow> float32 list \<Rightarrow>
     error + float32 list" where
  "copyRow srcRow xOffset c h width height [] tensor = Inr tensor"
| "copyRow srcRow xOffset c h width height (w # ws) tensor =
     (if dstIdx c h (int w) width height \<ge> length tensor then Inl OutOfBounds
      else
        copyRow srcRow xOffset c h width height ws
          (tensor[dstIdx c h (int w) width height := srcRow (int32 (int w + xOffset))]))"

text \<open>The loop over the rows \<open>hs\<close> of one channel; a null row pointer skips the row.\<close>

primrec copyRows ::
  "Tile \<Rightarrow> Channel \<Rightarrow> int \<Rightarrow> int \<Rightarrow> int \<Rightarrow> nat list \<Rightarrow> float32 list \<Rightarrow> error + float32 list" where
  "copyRows tile chan c width height [] tensor = Inr tensor"
| "copyRows tile chan c width height (h # hs) tensor =
     (case tile_rows tile chan (int32 (int h + tile_y tile)) of
       None \<Rightarrow> copyRows tile chan c width height hs tensor
     | Some srcRow \<Rightarrow>
         (case copyRow srcRow (tile_x tile) c (int h) width height [0..<nat width] tensor of
           Inl e \<Rightarrow> Inl e
         | Inr tensor' \<Rightarrow> copyRows tile chan c width height hs tensor'))"

text \<open>
  The loop over the channel indices \<open>cs\<close>. The plane of a channel the tile does not hold
  is filled with zeros from \<^verbatim>\<open>size_t offset = c * height * width\<close> on.
\<close>

primrec copyChannels ::
  "Tile \<Rightarrow> int \<Rightarrow> int \<Rightarrow> nat list \<Rightarrow> float32 list \<Rightarrow> error + float32 list" where
  "copyChannels tile width height [] tensor = Inr tensor"
| "copyChannels tile width height (c # cs) tensor =
     (case channelOf (int c) of
       None \<Rightarrow> copyChannels tile width height cs tensor
     | Some chan \<Rightarrow>
         if chan \<notin> tile_channels tile then
           (case fillZero tensor (planeOffset (int c) height width) (int32 (height * width)) of
             Inl e \<Rightarrow> Inl e
           | Inr tensor' \<Rightarrow> copyChannels tile width height cs tensor')
         else
           (case copyRows tile chan (int c) width height [0..<nat height] tensor of
             Inl e \<Rightarrow> Inl e
           | Inr tensor' \<Rightarrow> copyChannels tile width height cs tensor'))"

text \<open>
  \<^verbatim>\<open>tileToNCHWTensor(tile, tensor, width, height, channels)\<close>: the result is the output
  buffer \<open>tensor\<close> as the call leaves it.
\<close>

definition tileToNCHWTensor ::
  "Tile \<Rightarrow> float32 list \<Rightarrow> int \<Rightarrow> int \<Rightarrow> int \<Rightarrow> error + float32 list" where
  "tileToNCHWTensor tile tensor width height channels =
     (if width \<le> 0 \<or> height \<le> 0 \<or> channels \<le> 0 then Inl PreprocessError
      else
        (case resize tensor (to_size_t (int32 (int32 (int32 (1 * channels) * height) * width))) of
          Inl e \<Rightarrow> Inl e
        | Inr tensor' \<Rightarrow> copyChannels tile width height [0..<nat channels] tensor'))"

text \<open>
  Two regions for the examples: a 2 by 2 region at \<open>(10, 20)\<close> that holds red and blue, with
  pixel value \<open>100 * channel + 10 * row + column\<close> and no pointer for the upper blue row;
  and a region that holds no channel at all.
\<close>

definition exampleTile :: Tile where
  "exampleTile =
     \<lparr>tile_x = 10, tile_y = 20, tile_channels = {Chan_Red, Chan_Blue},
      tile_rows =
        (\<lambda>chan y.
           if chan = Chan_Red then Some (\<lambda>x. Finite (of_int (10 * (y - 20) + (x - 10))))
           else if chan = Chan_Blue \<and> y = 20
             then Some (\<lambda>x. Finite (of_int (200 + 10 * (y - 20) + (x - 10))))
           else None)\<rparr>"

definition emptyTile :: Tile where
  "emptyTile = \<lparr>tile_x = 0, tile_y = 0, tile_channels = {}, tile_rows = (\<lambda>chan y. None)\<rparr>"

section \<open>Properties of findMinMax\<close>

lemma scanMinMax_skips:
  "list_all (\<lambda>v. isnan v \<or> isinf v) tensorData \<Longrightarrow> scanMinMax tensorData acc = acc"
  by (induction tensorData) (cases acc, simp)+

text \<open>
  C1. The specification says that a non-empty buffer holding only NaN and infinite
  samples gives the fallback \<open>(0.0, 1.0)\<close>, as \<open>findMinMaxMultiChannel\<close> does by testing
  the sentinels. \<open>findMinMax\<close> does not: every sample is skipped, the sentinels
  \<^verbatim>\<open>numeric_limits<float>::max()\<close> and \<^verbatim>\<open>lowest()\<close> survive the scan, and the final
  test (equal, NaN or infinite) lets them through, since both are finite and different.
  The result is \<open>(FLT_MAX, -FLT_MAX)\<close>, which is not \<open>(0.0, 1.0)\<close>.
\<close>

theorem findMinMax_no_valid_sample:
  "tensorData \<noteq> [] \<Longrightarrow> list_all (\<lambda>v. isnan v \<or> isinf v) tensorData \<Longrightarrow>
     findMinMax tensorData = (FLT_MAX, FLT_LOWEST) \<and>
     findMinMax tensorData \<noteq> (Finite 0, Finite 1)"
  by (simp add: findMinMax_def scanMinMax_skips flt_eq_def isnan_def isinf_def
      FLT_MAX_def FLT_LOWEST_def)

theorem findMinMax_no_valid_sample_witness:
  "[NaN, PosInf, NegInf] \<noteq> [] \<and>
   list_all (\<lambda>v. isnan v \<or> isinf v) [NaN, PosInf, NegInf] \<and>
   findMinMax [NaN, PosInf, NegInf] = (FLT_MAX, FLT_LOWEST) \<and>
   findMinMax [NaN, PosInf, NegInf] \<noteq> (Finite 0, Finite 1)"
proof -
  have nonempty: "[NaN, PosInf, NegInf] \<noteq> []"
    by simp
  have invalid: "list_all (\<lambda>v. isnan v \<or> isinf v) [NaN, PosInf, NegInf]"
    by (simp add: isnan_def isinf_def)
  from findMinMax_no_valid_sample [OF nonempty invalid] nonempty invalid
  show ?thesis by blast
qed

text \<open>
  The multi-channel scan, for comparison: on a buffer without any finite sample it does
  return the fallback \<open>(0.0, 1.0)\<close>, for every channel count and all dimensions.
\<close>

lemma multiChannelLoop_skips:
  "list_all (\<lambda>v. isnan v \<or> isinf v) tensorData \<Longrightarrow>
   multiChannelLoop tensorData pointsPerChannel cs (FLT_MAX, FLT_LOWEST) = (FLT_MAX, FLT_LOWEST)"
proof (induction cs)
  case Nil
  then show ?case by simp
next
  case (Cons c cs)
  let ?s = "(c * pointsPerChannel) mod 2 ^ 64"
  let ?e = "min ((?s + pointsPerChannel) mod 2 ^ 64) (length tensorData)"
  from Cons.prems have "list_all (\<lambda>v. isnan v \<or> isinf v) (map (\<lambda>i. tensorData ! i) [?s..<?e])"
    by (auto simp: list_all_iff)
  then have "scanMinMax (map (\<lambda>i. tensorData ! i) [?s..<?e]) (FLT_MAX, FLT_LOWEST)
      = (FLT_MAX, FLT_LOWEST)"
    by (rule scanMinMax_skips)
  moreover have "flt_eq FLT_MAX FLT_MAX"
    by (simp add: flt_eq_def FLT_MAX_def)
  ultimately show ?case
    using Cons by (simp add: Let_def)
qed

lemma findMinMaxMultiChannel_no_valid_sample:
  "list_all (\<lambda>v. isnan v \<or> isinf v) tensorData \<Longrightarrow>
   findMinMaxMultiChannel fadd tensorData channelCount width height = (Finite 0, Finite 1)"
proof -
  assume "list_all (\<lambda>v. isnan v \<or> isinf v) tensorData"
  moreover have "flt_eq FLT_MAX FLT_MAX"
    by (simp add: flt_eq_def FLT_MAX_def)
  ultimately show ?thesis
    by (simp add: findMinMaxMultiChannel_def multiChannelLoop_skips)
qed

section \<open>Properties of the machine numbers\<close>


lemma int32_id: "0 \<le> n \<Longrightarrow> n < 2 ^ 31 \<Longrightarrow> int32 n = n"
  by (simp add: int32_def)

lemma to_size_t_id: "0 \<le> n \<Longrightarrow> n < 2 ^ 31 \<Longrightarrow> to_size_t n = nat n"
  by (simp add: to_size_t_def)


section \<open>Properties of getTensorValue\<close>





lemma planeOffset_exact:
  assumes "0 \<le> channelIdx" "0 < height" "0 < width" "channelIdx * height * width < 2 ^ 31"
  shows "planeOffset channelIdx height width = nat (channelIdx * height * width)"
proof -
  have ch: "0 \<le> channelIdx * height" using assms by simp
  have "channelIdx * height * 1 \<le> channelIdx * height * width"
    using ch assms(3) by (intro mult_left_mono) simp_all
  then have "channelIdx * height < 2 ^ 31" using assms(4) by simp
  then have "int32 (channelIdx * height) = channelIdx * height"
    using ch by (simp add: int32_id)
  moreover have "0 \<le> channelIdx * height * width" using ch assms(3) by simp
  ultimately show ?thesis
    using assms(4) by (simp add: planeOffset_def int32_id to_size_t_id)
qed




section \<open>Properties of prepareInputs\<close>

lemma prepareLoop_length: "length (prepareLoop m p is ts) = length ts"
  by (induction "is" arbitrary: ts) simp_all

lemma prepareLoop_nth:
  "distinct is \<Longrightarrow> i < length ts \<Longrightarrow>
   prepareLoop m p is ts ! i = (if i \<in> set is then prepareSlot m p i (ts ! i) else ts ! i)"
proof (induction "is" arbitrary: ts)
  case Nil
  then show ?case by simp
next
  case (Cons j js)
  then have "i \<in> set js \<Longrightarrow> i \<noteq> j" by auto
  with Cons show ?case by (auto simp: nth_list_update)
qed

lemma prepareInputs_slots:
  assumes "isLoaded m" "0 < inputCount"
  shows "\<exists>p'. prepareInputs (Some m) inputCount p = Inr p' \<and>
           length (ip_inputTensors p') = nat inputCount \<and>
           (\<forall>i < nat inputCount.
              ip_inputTensors p' ! i = prepareSlot m p i newInputTensorInfo)"
  using assms by (simp add: prepareInputs_def prepareLoop_length prepareLoop_nth)

lemma prepareSlot_shape:
  "shape (prepareSlot m p i t) =
     (if i < length (mm_inputDims m) \<and> mm_inputDims m ! i \<noteq> [] then
        (if 4 \<le> length (mm_inputDims m ! i)
         then (mm_inputDims m ! i)[2 := ip_height p, 3 := ip_width p]
         else mm_inputDims m ! i)
      else [1, ip_channels p, ip_height p, ip_width p])"
  by (simp add: prepareSlot_def Let_def)

lemma prepareSlot_invalid: "\<not> valid (prepareSlot m p i t)"
  by (simp add: prepareSlot_def Let_def)

text \<open>
  C5. When \<open>prepareInputs(inputCount)\<close> succeeds (a loaded handle, \<open>inputCount > 0\<close>), there
  are \<open>inputCount\<close> slots, and the shape of slot \<open>i\<close> is: the shape the model declares for
  input \<open>i\<close>, if there is one and it is not empty, with its entries 2 and 3 overwritten by
  the configured height and width exactly when its rank is at least 4 (every other entry
  kept); otherwise the default \<open>[1, channels, height, width]\<close>. The declared shape
  \<open>[1, 3, -1, -1]\<close> with a 64 wide and 32 high image gives \<open>[1, 3, 32, 64]\<close>.
\<close>

theorem prepareInputs_shapes:
  "isLoaded m \<Longrightarrow> 0 < inputCount \<Longrightarrow>
   \<exists>p'. prepareInputs (Some m) inputCount p = Inr p' \<and>
     length (ip_inputTensors p') = nat inputCount \<and>
     (\<forall>i < nat inputCount.
        shape (ip_inputTensors p' ! i) =
          (if i < length (mm_inputDims m) \<and> mm_inputDims m ! i \<noteq> [] then
             (if 4 \<le> length (mm_inputDims m ! i)
              then (mm_inputDims m ! i)[2 := ip_height p, 3 := ip_width p]
              else mm_inputDims m ! i)
           else [1, ip_channels p, ip_height p, ip_width p]))"
proof -
  assume a: "isLoaded m" "0 < inputCount"
  from prepareInputs_slots [OF a, of p] obtain p' where
    p': "prepareInputs (Some m) inputCount p = Inr p'"
      "length (ip_inputTensors p') = nat inputCount"
      "\<forall>i < nat inputCount. ip_inputTensors p' ! i = prepareSlot m p i newInputTensorInfo"
    by blast
  then show ?thesis by (simp add: prepareSlot_shape)
qed

theorem prepareInputs_shapes_witness:
  "isLoaded (newModelManager\<lparr>mm_modelLoaded := True, mm_inputNames := [''img''],
      mm_inputDims := [[1, 3, - 1, - 1]]\<rparr>) \<and>
   (0 :: int) < 1 \<and>
   map_sum id (map shape \<circ> ip_inputTensors)
     (prepareInputs
        (Some (newModelManager\<lparr>mm_modelLoaded := True, mm_inputNames := [''img''],
           mm_inputDims := [[1, 3, - 1, - 1]]\<rparr>))
        1 (newInferenceProcessor\<lparr>ip_width := 64, ip_height := 32, ip_channels := 3\<rparr>))
     = Inr [[1, 3, 32, 64]]"
proof -
  let ?m = "newModelManager\<lparr>mm_modelLoaded := True, mm_inputNames := [''img''],
      mm_inputDims := [[1, 3, - 1, - 1]]\<rparr>"
  let ?p = "newInferenceProcessor\<lparr>ip_width := 64, ip_height := 32, ip_channels := 3\<rparr>"
  have loaded: "isLoaded ?m" by (simp add: isLoaded_def)
  have pos: "(0 :: int) < 1" by simp
  from prepareInputs_shapes [OF loaded pos, of ?p] obtain p' where
    p': "prepareInputs (Some ?m) 1 ?p = Inr p'" "length (ip_inputTensors p') = 1"
      "shape (ip_inputTensors p' ! 0) = [1, 3, 32, 64]"
    by (auto simp: newModelManager_def newInferenceProcessor_def)
  from p'(2) obtain t where t: "ip_inputTensors p' = [t]"
    by (cases "ip_inputTensors p'") auto
  with p'(3) have "map shape (ip_inputTensors p') = [[1, 3, 32, 64]]" by simp
  with p'(1) loaded show ?thesis by simp
qed

section \<open>Properties of runInference\<close>

lemma collectValid_none_valid:
  "\<forall>t \<in> set ts. \<not> valid t \<Longrightarrow> collectValid ts = Inr []"
  by (induction ts) simp_all

lemma collectValid_errors: "collectValid ts = Inl e \<Longrightarrow> e = ConfigurationError"
  by (induction ts) (auto split: if_splits sum.splits)

lemma collectValid_bad_slot:
  "\<exists>t \<in> set ts. valid t \<and> (data t = [] \<or> shape t = []) \<Longrightarrow>
   collectValid ts = Inl ConfigurationError"
proof (induction ts)
  case Nil
  then show ?case by simp
next
  case (Cons a ts)
  show ?case
  proof (cases "valid a \<and> (data a = [] \<or> shape a = [])")
    case True
    then show ?thesis by auto
  next
    case False
    with Cons.prems have "\<exists>t \<in> set ts. valid t \<and> (data t = [] \<or> shape t = [])"
      by auto
    then have "collectValid ts = Inl ConfigurationError" by (rule Cons.IH)
    then show ?thesis by simp
  qed
qed

lemma runInference_no_valid:
  "\<forall>t \<in> set (ip_inputTensors p). \<not> valid t \<Longrightarrow>
   runInference eng mgr p = Inl ConfigurationError"
  by (simp add: runInference_def collectValid_none_valid split: option.splits)

lemma runInference_bad_slot:
  "\<exists>t \<in> set (ip_inputTensors p). valid t \<and> (data t = [] \<or> shape t = []) \<Longrightarrow>
   runInference eng mgr p = Inl ConfigurationError"
  by (simp add: runInference_def collectValid_bad_slot split: option.splits)

lemma prepareInputs_all_invalid:
  assumes "isLoaded m" "0 < inputCount"
  shows "\<exists>p'. prepareInputs (Some m) inputCount p = Inr p' \<and>
           (\<forall>t \<in> set (ip_inputTensors p'). \<not> valid t)"
proof -
  from prepareInputs_slots [OF assms, of p] obtain p' where
    p': "prepareInputs (Some m) inputCount p = Inr p'"
      "length (ip_inputTensors p') = nat inputCount"
      "\<forall>i < nat inputCount. ip_inputTensors p' ! i = prepareSlot m p i newInputTensorInfo"
    by blast
  have "\<not> valid t" if "t \<in> set (ip_inputTensors p')" for t
  proof -
    from that obtain i where "i < length (ip_inputTensors p')" "t = ip_inputTensors p' ! i"
      by (auto simp: in_set_conv_nth)
    with p' show ?thesis by (simp add: prepareSlot_invalid)
  qed
  with p'(1) show ?thesis by blast
qed

text \<open>
  C7. For a loaded handle and \<open>inputCount > 0\<close>, \<open>prepareInputs(inputCount)\<close> followed at
  once by \<open>runInference\<close> fails with \<open>ConfigurationError\<close> (every slot is invalid) and
  accesses nothing out of range. \<open>runInference\<close> fails with \<open>ConfigurationError\<close> whenever no
  handle is attached, the handle is unloaded, no slot is valid, or some valid slot has
  empty data or an empty shape.
\<close>

theorem runInference_configuration_errors:
  "(isLoaded m \<and> 0 < inputCount \<longrightarrow>
      (\<exists>p'. prepareInputs (Some m) inputCount p = Inr p' \<and>
         runInference eng (Some m) p' = Inl ConfigurationError)) \<and>
   runInference eng None p = Inl ConfigurationError \<and>
   (\<not> isLoaded m \<longrightarrow> runInference eng (Some m) p = Inl ConfigurationError) \<and>
   ((\<forall>t \<in> set (ip_inputTensors p). \<not> valid t) \<longrightarrow>
      runInference eng mgr p = Inl ConfigurationError) \<and>
   ((\<exists>t \<in> set (ip_inputTensors p). valid t \<and> (data t = [] \<or> shape t = [])) \<longrightarrow>
      runInference eng mgr p = Inl ConfigurationError)"
proof (intro conjI impI)
  assume "isLoaded m \<and> 0 < inputCount"
  then obtain p' where "prepareInputs (Some m) inputCount p = Inr p'"
    "\<forall>t \<in> set (ip_inputTensors p'). \<not> valid t"
    using prepareInputs_all_invalid by blast
  then show "\<exists>p'. prepareInputs (Some m) inputCount p = Inr p' \<and>
      runInference eng (Some m) p' = Inl ConfigurationError"
    using runInference_no_valid by blast
next
  show "runInference eng None p = Inl ConfigurationError"
    by (simp add: runInference_def)
next
  assume "\<not> isLoaded m"
  then show "runInference eng (Some m) p = Inl ConfigurationError"
    by (simp add: runInference_def)
next
  assume "\<forall>t \<in> set (ip_inputTensors p). \<not> valid t"
  then show "runInference eng mgr p = Inl ConfigurationError"
    by (rule runInference_no_valid)
next
  assume "\<exists>t \<in> set (ip_inputTensors p). valid t \<and> (data t = [] \<or> shape t = [])"
  then show "runInference eng mgr p = Inl ConfigurationError"
    by (rule runInference_bad_slot)
qed

theorem runInference_configuration_errors_witness:
  "(case prepareInputs (Some (newModelManager\<lparr>mm_modelLoaded := True\<rparr>)) 2
           newInferenceProcessor of
      Inl e \<Rightarrow> False
    | Inr p' \<Rightarrow>
        runInference \<lparr>createSession = (\<lambda>path gpu. None), createTensor = (\<lambda>buf d. True)\<rparr>
          (Some (newModelManager\<lparr>mm_modelLoaded := True\<rparr>)) p' = Inl ConfigurationError) \<and>
   runInference \<lparr>createSession = (\<lambda>path gpu. None), createTensor = (\<lambda>buf d. True)\<rparr>
     (Some (newModelManager\<lparr>mm_modelLoaded := True\<rparr>))
     (newInferenceProcessor\<lparr>ip_inputTensors :=
        [newInputTensorInfo, newInputTensorInfo\<lparr>valid := True\<rparr>]\<rparr>)
     = Inl ConfigurationError"
proof -
  let ?eng = "\<lparr>createSession = (\<lambda>path gpu. None), createTensor = (\<lambda>buf d. True)\<rparr>"
  let ?m = "newModelManager\<lparr>mm_modelLoaded := True\<rparr>"
  let ?p = "newInferenceProcessor\<lparr>ip_inputTensors :=
        [newInputTensorInfo, newInputTensorInfo\<lparr>valid := True\<rparr>]\<rparr>"
  have bad: "\<exists>t \<in> set (ip_inputTensors ?p). valid t \<and> (data t = [] \<or> shape t = [])"
    by (simp add: newInferenceProcessor_def newInputTensorInfo_def)
  have second: "runInference ?eng (Some ?m) ?p = Inl ConfigurationError"
    using runInference_configuration_errors [of ?m 0 ?p ?eng "Some ?m"] bad by blast
  have loaded: "isLoaded ?m \<and> (0 :: int) < 2"
    by (simp add: isLoaded_def)
  from runInference_configuration_errors [of ?m 2 newInferenceProcessor ?eng] loaded
  obtain p' where "prepareInputs (Some ?m) 2 newInferenceProcessor = Inr p'"
    "runInference ?eng (Some ?m) p' = Inl ConfigurationError"
    by blast
  with second show ?thesis by simp
qed

section \<open>The output geometry after runInference\<close>

lemma exampleManager_is_loaded:
  "load exampleEngine ''model.onnx'' False newModelManager = (None, exampleManager)"
  by (simp add: load_def exampleEngine_def exampleSession_def newModelManager_def extractModelInfo_def
      exampleManager_def Let_def numeral_2_eq_2)

lemma processOutput_dims:
  "processOutput outputTensors m = Inr (m', out) \<Longrightarrow> mm_outputDims m' \<noteq> []"
  by (auto simp: processOutput_def split: list.splits OrtValue.splits if_splits)

lemma managerRunInference_dims:
  "managerRunInference eng inputTensor inputShape m = Inr (m', out) \<Longrightarrow> mm_outputDims m' \<noteq> []"
  by (auto simp: managerRunInference_def processOutput_dims split: option.splits if_splits)

lemma runInferenceMultiInput_dims:
  "runInferenceMultiInput eng inputTensors inputShapes inputNames m = Inr (m', out) \<Longrightarrow>
   mm_outputDims m' \<noteq> []"
  by (auto simp: runInferenceMultiInput_def processOutput_dims split: option.splits if_splits sum.splits)

lemma runInference_success:
  "runInference eng mgr p = Inr (p', m', out) \<Longrightarrow>
   p' = updateOutputGeometry m' p \<and> mm_outputDims m' \<noteq> []"
  by (auto simp: runInference_def split: option.splits if_splits sum.splits
      dest: managerRunInference_dims runInferenceMultiInput_dims)

lemma updateOutputGeometry_low_rank:
  "length (mm_outputDims m ! 0) < 2 \<Longrightarrow>
   ip_outputWidth (updateOutputGeometry m p) = ip_width p \<and>
   ip_outputHeight (updateOutputGeometry m p) = ip_height p \<and>
   ip_outputChannels (updateOutputGeometry m p) = 1"
  by (simp add: updateOutputGeometry_def Let_def)

lemma updateOutputGeometry_high_rank:
  "mm_outputDims m \<noteq> [] \<Longrightarrow> 4 \<le> length (mm_outputDims m ! 0) \<Longrightarrow>
   ip_outputWidth (updateOutputGeometry m p) = int32 (mm_outputDims m ! 0 ! 3) \<and>
   ip_outputHeight (updateOutputGeometry m p) = int32 (mm_outputDims m ! 0 ! 2) \<and>
   ip_outputChannels (updateOutputGeometry m p) = int32 (mm_outputDims m ! 0 ! 1)"
  by (auto simp: updateOutputGeometry_def Let_def)

text \<open>
  C2. The specification says that a successful \<open>runInference\<close> whose stored output shape has
  a rank other than 2, 3 or 4 leaves the output geometry as it was before the call. The
  code resets the geometry on every successful call: with rank 0 or 1 the width and height
  become the configured input width and height and the channel count becomes 1, whatever
  they were before; with rank 5 or more the geometry is read as for rank 4 (channels from
  entry 1, height from entry 2, width from entry 3).
\<close>

theorem runInference_geometry_other_ranks:
  "runInference eng mgr p = Inr (p', m', out) \<Longrightarrow>
   mm_outputDims m' \<noteq> [] \<and>
   (length (mm_outputDims m' ! 0) < 2 \<longrightarrow>
      ip_outputWidth p' = ip_width p \<and> ip_outputHeight p' = ip_height p \<and>
      ip_outputChannels p' = 1) \<and>
   (5 \<le> length (mm_outputDims m' ! 0) \<longrightarrow>
      ip_outputWidth p' = int32 (mm_outputDims m' ! 0 ! 3) \<and>
      ip_outputHeight p' = int32 (mm_outputDims m' ! 0 ! 2) \<and>
      ip_outputChannels p' = int32 (mm_outputDims m' ! 0 ! 1))"
proof -
  assume "runInference eng mgr p = Inr (p', m', out)"
  then have s: "p' = updateOutputGeometry m' p" "mm_outputDims m' \<noteq> []"
    using runInference_success by blast+
  then show ?thesis
    using updateOutputGeometry_low_rank [of m' p] updateOutputGeometry_high_rank [of m' p]
    by simp
qed

theorem runInference_geometry_other_ranks_witness:
  "(case runInference exampleEngine (Some exampleManager)
           (exampleProcessor\<lparr>ip_inputTensors :=
              [\<lparr>data = [Finite 1], shape = [1, 1, 1, 1], name = ''img'', valid = True\<rparr>],
              ip_outputWidth := 2, ip_outputHeight := 1, ip_outputChannels := 3\<rparr>) of
      Inl e \<Rightarrow> False
    | Inr (p', m', out) \<Rightarrow>
        mm_outputDims m' = [[5]] \<and> ip_outputWidth p' = 64 \<and> ip_outputHeight p' = 32 \<and>
        ip_outputChannels p' = 1) \<and>
   (case runInference exampleEngine (Some exampleManager)
           (exampleProcessor\<lparr>ip_inputTensors :=
              [\<lparr>data = [Finite 2], shape = [1, 1, 1, 1], name = ''img'', valid = True\<rparr>]\<rparr>) of
      Inl e \<Rightarrow> False
    | Inr (p', m', out) \<Rightarrow>
        mm_outputDims m' = [[1, 2, 3, 4, 5]] \<and> ip_outputWidth p' = 4 \<and>
        ip_outputHeight p' = 3 \<and> ip_outputChannels p' = 2)"
proof -
  let ?p = "exampleProcessor\<lparr>ip_inputTensors :=
              [\<lparr>data = [Finite 1], shape = [1, 1, 1, 1], name = ''img'', valid = True\<rparr>],
              ip_outputWidth := 2, ip_outputHeight := 1, ip_outputChannels := 3\<rparr>"
  let ?q = "exampleProcessor\<lparr>ip_inputTensors :=
              [\<lparr>data = [Finite 2], shape = [1, 1, 1, 1], name = ''img'', valid = True\<rparr>]\<rparr>"
  have "\<exists>p' m' out. runInference exampleEngine (Some exampleManager) ?p = Inr (p', m', out) \<and>
      mm_outputDims m' = [[5]]"
    by (simp add: runInference_def isLoaded_def exampleManager_def exampleProcessor_def
        managerRunInference_def exampleEngine_def exampleSession_def processOutput_def)
  then obtain p' m' out where
    run: "runInference exampleEngine (Some exampleManager) ?p = Inr (p', m', out)"
    and dims: "mm_outputDims m' = [[5]]"
    by blast
  from runInference_geometry_other_ranks [OF run] dims
  have "ip_outputWidth p' = ip_width ?p \<and> ip_outputHeight p' = ip_height ?p \<and>
      ip_outputChannels p' = 1"
    by simp
  then have "ip_outputWidth p' = 64 \<and> ip_outputHeight p' = 32 \<and> ip_outputChannels p' = 1"
    by (simp add: exampleProcessor_def)
  with run dims have low: "(case runInference exampleEngine (Some exampleManager) ?p of
      Inl e \<Rightarrow> False
    | Inr (p', m', out) \<Rightarrow>
        mm_outputDims m' = [[5]] \<and> ip_outputWidth p' = 64 \<and> ip_outputHeight p' = 32 \<and>
        ip_outputChannels p' = 1)"
    by simp
  have "\<exists>p' m' out. runInference exampleEngine (Some exampleManager) ?q = Inr (p', m', out) \<and>
      mm_outputDims m' = [[1, 2, 3, 4, 5]]"
    by (simp add: runInference_def isLoaded_def exampleManager_def exampleProcessor_def
        managerRunInference_def exampleEngine_def exampleSession_def processOutput_def)
  then obtain q' n' out' where
    run': "runInference exampleEngine (Some exampleManager) ?q = Inr (q', n', out')"
    and dims': "mm_outputDims n' = [[1, 2, 3, 4, 5]]"
    by blast
  from runInference_geometry_other_ranks [OF run'] dims'
  have "ip_outputWidth q' = int32 4 \<and> ip_outputHeight q' = int32 3 \<and>
      ip_outputChannels q' = int32 2"
    by simp
  then have "ip_outputWidth q' = 4 \<and> ip_outputHeight q' = 3 \<and> ip_outputChannels q' = 2"
    by (simp add: int32_def)
  with run' dims' have high: "(case runInference exampleEngine (Some exampleManager) ?q of
      Inl e \<Rightarrow> False
    | Inr (p', m', out) \<Rightarrow>
        mm_outputDims m' = [[1, 2, 3, 4, 5]] \<and> ip_outputWidth p' = 4 \<and>
        ip_outputHeight p' = 3 \<and> ip_outputChannels p' = 2)"
    by simp
  from low high show ?thesis by blast
qed

theorem runInference_geometry_counterexample:
  "(case runInference exampleEngine (Some exampleManager) exampleProcessor of
      Inl e \<Rightarrow> False
    | Inr (p1, m1, out1) \<Rightarrow>
        mm_outputDims m1 = [[1, 3, 1, 2]] \<and>
        (ip_outputWidth p1, ip_outputHeight p1, ip_outputChannels p1) = (2, 1, 3) \<and>
        (case setInputTensorData 0 [Finite 1] p1 of
           Inl e \<Rightarrow> False
         | Inr p2 \<Rightarrow>
             (case runInference exampleEngine (Some m1) p2 of
                Inl e \<Rightarrow> False
              | Inr (p3, m3, out3) \<Rightarrow>
                  mm_outputDims m3 = [[5]] \<and>
                  (ip_outputWidth p3, ip_outputHeight p3, ip_outputChannels p3) = (64, 32, 1) \<and>
                  (ip_outputWidth p3, ip_outputHeight p3, ip_outputChannels p3) \<noteq>
                  (ip_outputWidth p2, ip_outputHeight p2, ip_outputChannels p2))))"
  by (simp add: runInference_def isLoaded_def exampleManager_def exampleProcessor_def
      managerRunInference_def exampleEngine_def exampleSession_def processOutput_def
      updateOutputGeometry_def setInputTensorData_def Let_def int32_def)

section \<open>Properties of runInferenceMultiInput\<close>

lemma resolveInputName_eq:
  "resolveInputName declared supplied i =
     (if supplied \<noteq> [] \<and> supplied \<in> set declared then supplied else declared ! i)"
proof (cases "find (\<lambda>n. n = supplied) declared")
  case None
  then have "supplied \<notin> set declared" by (auto simp: find_None_iff)
  with None show ?thesis by (simp add: resolveInputName_def)
next
  case (Some n)
  then have "n = supplied \<and> supplied \<in> set declared"
    by (auto simp: find_Some_iff)
  with Some show ?thesis by (simp add: resolveInputName_def)
qed

lemma bindInputs_names:
  "bindInputs eng declared inputTensors inputShapes inputNames is = Inr bound \<Longrightarrow>
   map fst bound = map (\<lambda>i. resolveInputName declared (inputNames ! i) i) is"
  by (induction "is" arbitrary: bound) (auto split: if_splits sum.splits)

lemma runInferenceMultiInput_run:
  "runInferenceMultiInput eng inputTensors inputShapes inputNames m = Inr r \<Longrightarrow>
   \<exists>s bound outputTensors. mm_session m = Some s \<and>
     bindInputs eng (mm_inputNames m) inputTensors inputShapes inputNames
       [0..<length inputNames] = Inr bound \<and>
     Run s bound [mm_outputNames m ! 0] = Some outputTensors"
  by (auto simp: runInferenceMultiInput_def split: option.splits if_splits sum.splits)

lemma runInferenceMultiInput_mismatch:
  "mm_modelLoaded m \<Longrightarrow> mm_session m \<noteq> None \<Longrightarrow>
   length inputTensors \<noteq> length inputShapes \<or> length inputNames > length (mm_inputNames m) \<Longrightarrow>
   runInferenceMultiInput eng inputTensors inputShapes inputNames m = Inl InvalidArgumentError"
  by (auto simp: runInferenceMultiInput_def split: option.splits)

lemma runInferenceMultiInput_unloaded:
  "\<not> (mm_modelLoaded m \<and> mm_session m \<noteq> None) \<Longrightarrow>
   runInferenceMultiInput eng inputTensors inputShapes inputNames m = Inl InferenceError"
  by (auto simp: runInferenceMultiInput_def split: option.splits)

text \<open>
  C6. In \<open>runInferenceMultiInput\<close> the engine input name bound for supplied input \<open>i\<close> is the
  supplied name when it is not empty and equals a declared input name, and the \<open>i\<close>-th
  declared name otherwise (no equal declared name, or an empty supplied name); the names
  \<open>["", "aux"]\<close> against the declared \<open>["img", "aux"]\<close> bind to \<open>"img"\<close> and \<open>"aux"\<close>. On a
  loaded handle the call fails with \<open>InvalidArgumentError\<close> when the numbers of supplied
  buffers and shapes differ, or when more names are supplied than the model declares. The
  specification states these two failures without the condition that the handle is
  loaded; a handle that is not loaded, or has no session, fails with \<open>InferenceError\<close>
  before either test, whatever is supplied.
\<close>

theorem runInferenceMultiInput_binding:
  "(\<forall>r. runInferenceMultiInput eng inputTensors inputShapes inputNames m = Inr r \<longrightarrow>
      (\<exists>s bound outputTensors. mm_session m = Some s \<and>
         Run s bound [mm_outputNames m ! 0] = Some outputTensors \<and>
         map fst bound =
           map (\<lambda>i. if inputNames ! i \<noteq> [] \<and> inputNames ! i \<in> set (mm_inputNames m)
                     then inputNames ! i else mm_inputNames m ! i)
             [0..<length inputNames])) \<and>
   (\<forall>bound. bindInputs eng (mm_inputNames m) inputTensors inputShapes inputNames
        [0..<length inputNames] = Inr bound \<longrightarrow>
      map fst bound =
        map (\<lambda>i. if inputNames ! i \<noteq> [] \<and> inputNames ! i \<in> set (mm_inputNames m)
                  then inputNames ! i else mm_inputNames m ! i)
          [0..<length inputNames]) \<and>
   (mm_modelLoaded m \<and> mm_session m \<noteq> None \<and> length inputTensors \<noteq> length inputShapes \<longrightarrow>
      runInferenceMultiInput eng inputTensors inputShapes inputNames m =
        Inl InvalidArgumentError) \<and>
   (mm_modelLoaded m \<and> mm_session m \<noteq> None \<and> length inputNames > length (mm_inputNames m) \<longrightarrow>
      runInferenceMultiInput eng inputTensors inputShapes inputNames m =
        Inl InvalidArgumentError) \<and>
   (\<not> (mm_modelLoaded m \<and> mm_session m \<noteq> None) \<longrightarrow>
      runInferenceMultiInput eng inputTensors inputShapes inputNames m = Inl InferenceError)"
proof (intro conjI allI impI)
  fix r
  assume "runInferenceMultiInput eng inputTensors inputShapes inputNames m = Inr r"
  then obtain s bound outputTensors where
    "mm_session m = Some s"
    "bindInputs eng (mm_inputNames m) inputTensors inputShapes inputNames
       [0..<length inputNames] = Inr bound"
    "Run s bound [mm_outputNames m ! 0] = Some outputTensors"
    using runInferenceMultiInput_run by blast
  moreover from this have "map fst bound =
      map (\<lambda>i. if inputNames ! i \<noteq> [] \<and> inputNames ! i \<in> set (mm_inputNames m)
                then inputNames ! i else mm_inputNames m ! i)
        [0..<length inputNames]"
    using bindInputs_names [of eng "mm_inputNames m" inputTensors inputShapes inputNames
        "[0..<length inputNames]" bound]
    by (simp add: resolveInputName_eq)
  ultimately show "\<exists>s bound outputTensors. mm_session m = Some s \<and>
         Run s bound [mm_outputNames m ! 0] = Some outputTensors \<and>
         map fst bound =
           map (\<lambda>i. if inputNames ! i \<noteq> [] \<and> inputNames ! i \<in> set (mm_inputNames m)
                     then inputNames ! i else mm_inputNames m ! i)
             [0..<length inputNames]"
    by blast
next
  fix bound
  assume "bindInputs eng (mm_inputNames m) inputTensors inputShapes inputNames
        [0..<length inputNames] = Inr bound"
  then show "map fst bound =
        map (\<lambda>i. if inputNames ! i \<noteq> [] \<and> inputNames ! i \<in> set (mm_inputNames m)
                  then inputNames ! i else mm_inputNames m ! i)
          [0..<length inputNames]"
    using bindInputs_names [of eng "mm_inputNames m" inputTensors inputShapes inputNames
        "[0..<length inputNames]" bound]
    by (simp add: resolveInputName_eq)
next
  assume "mm_modelLoaded m \<and> mm_session m \<noteq> None \<and> length inputTensors \<noteq> length inputShapes"
  then show "runInferenceMultiInput eng inputTensors inputShapes inputNames m =
        Inl InvalidArgumentError"
    by (simp add: runInferenceMultiInput_mismatch)
next
  assume "mm_modelLoaded m \<and> mm_session m \<noteq> None \<and>
    length inputNames > length (mm_inputNames m)"
  then show "runInferenceMultiInput eng inputTensors inputShapes inputNames m =
        Inl InvalidArgumentError"
    by (simp add: runInferenceMultiInput_mismatch)
next
  assume "\<not> (mm_modelLoaded m \<and> mm_session m \<noteq> None)"
  then show "runInferenceMultiInput eng inputTensors inputShapes inputNames m =
        Inl InferenceError"
    by (rule runInferenceMultiInput_unloaded)
qed

theorem runInferenceMultiInput_binding_witness:
  "map_sum id (map fst)
     (bindInputs exampleEngine (mm_inputNames exampleManager) [[Finite 1], [Finite 2]]
        [[1], [1]] ['''', ''aux''] [0..<length ['''', ''aux'']])
     = Inr [''img'', ''aux''] \<and>
   (\<exists>bound outputTensors.
      Run exampleSession bound [''out''] = Some outputTensors \<and>
      map fst bound = [''img'', ''aux'']) \<and>
   runInferenceMultiInput exampleEngine [[Finite 1], [Finite 2]] [[1]] ['''', ''aux'']
     exampleManager = Inl InvalidArgumentError \<and>
   runInferenceMultiInput exampleEngine [[Finite 1], [Finite 2]] [[1], [1]]
     ['''', ''aux'', ''more''] exampleManager = Inl InvalidArgumentError \<and>
   runInferenceMultiInput exampleEngine [[Finite 1], [Finite 2]] [[1], [1]] ['''', ''aux'']
     newModelManager = Inl InferenceError"
proof -
  let ?ts = "[[Finite 1], [Finite 2]]"
  let ?ns = "['''', ''aux'']"
  have "\<exists>bound. bindInputs exampleEngine (mm_inputNames exampleManager) ?ts [[1], [1]] ?ns
      [0..<length ?ns] = Inr bound"
    by (simp add: exampleEngine_def upt_rec)
  then obtain bound where
    b: "bindInputs exampleEngine (mm_inputNames exampleManager) ?ts [[1], [1]] ?ns
      [0..<length ?ns] = Inr bound"
    by blast
  from runInferenceMultiInput_binding [of exampleEngine ?ts "[[1], [1]]" ?ns exampleManager] b
  have "map fst bound =
      map (\<lambda>i. if ?ns ! i \<noteq> [] \<and> ?ns ! i \<in> set (mm_inputNames exampleManager)
                then ?ns ! i else mm_inputNames exampleManager ! i) [0..<length ?ns]"
    by blast
  then have "map fst bound = [''img'', ''aux'']"
    by (simp add: exampleManager_def upt_rec)
  with b have first: "map_sum id (map fst)
     (bindInputs exampleEngine (mm_inputNames exampleManager) ?ts [[1], [1]] ?ns
        [0..<length ?ns]) = Inr [''img'', ''aux'']"
    by simp
  have loaded: "mm_modelLoaded exampleManager \<and> mm_session exampleManager \<noteq> None"
    by (simp add: exampleManager_def)
  have second: "runInferenceMultiInput exampleEngine ?ts [[1]] ?ns exampleManager =
      Inl InvalidArgumentError"
    using runInferenceMultiInput_binding [of exampleEngine ?ts "[[1]]" ?ns exampleManager] loaded
    by simp
  have "length ['''', ''aux'', ''more''] > length (mm_inputNames exampleManager)"
    by (simp add: exampleManager_def)
  with loaded have third: "runInferenceMultiInput exampleEngine ?ts [[1], [1]]
      ['''', ''aux'', ''more''] exampleManager = Inl InvalidArgumentError"
    using runInferenceMultiInput_binding
      [of exampleEngine ?ts "[[1], [1]]" "['''', ''aux'', ''more'']" exampleManager]
    by blast
  have "\<exists>r. runInferenceMultiInput exampleEngine ?ts [[1], [1]] ?ns exampleManager = Inr r"
    by (simp add: runInferenceMultiInput_def exampleManager_def exampleEngine_def
        exampleSession_def processOutput_def upt_rec)
  with runInferenceMultiInput_binding [of exampleEngine ?ts "[[1], [1]]" ?ns exampleManager]
  obtain s bound outputTensors where
    "mm_session exampleManager = Some s"
    "Run s bound [mm_outputNames exampleManager ! 0] = Some outputTensors"
    "map fst bound =
      map (\<lambda>i. if ?ns ! i \<noteq> [] \<and> ?ns ! i \<in> set (mm_inputNames exampleManager)
                then ?ns ! i else mm_inputNames exampleManager ! i) [0..<length ?ns]"
    by blast
  then have bound: "Run exampleSession bound [''out''] = Some outputTensors \<and>
      map fst bound = [''img'', ''aux'']"
    by (simp add: exampleManager_def upt_rec)
  have run: "\<exists>bound outputTensors.
      Run exampleSession bound [''out''] = Some outputTensors \<and>
      map fst bound = [''img'', ''aux'']"
  proof (intro exI)
    show "Run exampleSession bound [''out''] = Some outputTensors \<and>
      map fst bound = [''img'', ''aux'']"
      by (rule bound)
  qed
  have "\<not> (mm_modelLoaded newModelManager \<and> mm_session newModelManager \<noteq> None)"
    by (simp add: newModelManager_def)
  then have fourth: "runInferenceMultiInput exampleEngine ?ts [[1], [1]] ?ns newModelManager =
      Inl InferenceError"
    using runInferenceMultiInput_binding [of exampleEngine ?ts "[[1], [1]]" ?ns newModelManager]
    by blast
  from first run second third fourth show ?thesis by blast
qed

theorem runInferenceMultiInput_unloaded_counterexample:
  "length [[Finite 1], [Finite 2]] \<noteq> length [[1 :: int]] \<and>
   length ['''', ''aux''] > length (mm_inputNames newModelManager) \<and>
   runInferenceMultiInput exampleEngine [[Finite 1], [Finite 2]] [[1]] ['''', ''aux'']
     newModelManager = Inl InferenceError \<and>
   runInferenceMultiInput exampleEngine [[Finite 1], [Finite 2]] [[1]] ['''', ''aux'']
     newModelManager \<noteq> Inl InvalidArgumentError"
  by (simp add: runInferenceMultiInput_def newModelManager_def)

section \<open>The load state and the declared inputs\<close>

lemma extractSlots_lengths:
  "extractSlots slots i names ds = (ok, names', ds') \<Longrightarrow>
   length names' = length names \<and> length ds' = length ds"
  by (induction slots arbitrary: i names ds) (auto split: option.splits)

lemma extractSlots_names:
  "extractSlots slots i names ds = (True, names', ds') \<Longrightarrow> i + length slots \<le> length names \<Longrightarrow>
   names' = take i names @ map fst slots @ drop (i + length slots) names"
proof (induction slots arbitrary: i names ds)
  case Nil
  then show ?case by simp
next
  case (Cons slot slots)
  from Cons.prems(1) obtain d where d: "snd slot = Some d"
    and rest: "extractSlots slots (Suc i) (names[i := fst slot]) (ds[i := d]) = (True, names', ds')"
    by (auto split: option.splits)
  from Cons.prems(2) have i: "i < length names" by simp
  from Cons.prems(2) have "Suc i + length slots \<le> length (names[i := fst slot])" by simp
  from Cons.IH [OF rest this]
  have "names' = take (Suc i) (names[i := fst slot]) @ map fst slots @
      drop (Suc i + length slots) (names[i := fst slot])" .
  moreover have "take (Suc i) (names[i := fst slot]) = take i names @ [fst slot]"
    using i by (simp add: take_Suc_conv_app_nth)
  moreover have "drop (Suc i + length slots) (names[i := fst slot]) =
      drop (Suc i + length slots) names"
    by simp
  ultimately show ?case by simp
qed

lemma extractModelInfo_result:
  assumes "extractModelInfo s m = (ok, m')"
  shows "mm_modelLoaded m' = mm_modelLoaded m \<and>
         length (mm_inputNames m') = length (inputInfo s)"
proof -
  obtain okIn names ds where
    ins: "extractSlots (inputInfo s) 0 (replicate (length (inputInfo s)) [])
            (replicate (length (inputInfo s)) []) = (okIn, names, ds)"
    by (metis prod_cases3)
  obtain okOut onames ods where
    outs: "extractSlots (outputInfo s) 0 (replicate (length (outputInfo s)) [])
            (replicate (length (outputInfo s)) []) = (okOut, onames, ods)"
    by (metis prod_cases3)
  from extractSlots_lengths [OF ins] have "length names = length (inputInfo s)"
    by simp
  with assms ins outs show ?thesis
    by (auto simp: extractModelInfo_def Let_def split: if_splits)
qed

lemma extractModelInfo_names:
  assumes "extractModelInfo s m = (True, m')"
  shows "mm_inputNames m' = map fst (inputInfo s)"
proof -
  obtain okIn names ds where
    ins: "extractSlots (inputInfo s) 0 (replicate (length (inputInfo s)) [])
            (replicate (length (inputInfo s)) []) = (okIn, names, ds)"
    by (metis prod_cases3)
  obtain okOut onames ods where
    outs: "extractSlots (outputInfo s) 0 (replicate (length (outputInfo s)) [])
            (replicate (length (outputInfo s)) []) = (okOut, onames, ods)"
    by (metis prod_cases3)
  from assms ins outs have ok: "okIn" and m': "mm_inputNames m' = names"
    by (auto simp: extractModelInfo_def Let_def split: if_splits)
  from ins ok have "names = map fst (inputInfo s)"
    using extractSlots_names [of "inputInfo s" 0 "replicate (length (inputInfo s)) []"
        "replicate (length (inputInfo s)) []" names ds]
    by simp
  with m' show ?thesis by simp
qed

lemma load_result:
  assumes "load eng modelPath useGPU m = (e, m')"
  shows "(e \<noteq> None \<longrightarrow> \<not> mm_modelLoaded m') \<and>
         (e = None \<longrightarrow> mm_modelLoaded m' \<and>
            (\<exists>s. createSession eng modelPath useGPU = Some s \<and>
               length (mm_inputNames m') = length (inputInfo s)))"
proof (cases "createSession eng modelPath useGPU")
  case None
  with assms show ?thesis by (auto simp: load_def Let_def)
next
  case (Some s)
  let ?m2 = "(if mm_modelLoaded m then unload m else m)\<lparr>mm_modelLoaded := False,
    mm_session := Some s\<rparr>"
  obtain ok m3 where ex: "extractModelInfo s ?m2 = (ok, m3)"
    by (metis surj_pair)
  from extractModelInfo_result [OF ex]
  have "\<not> mm_modelLoaded m3" "length (mm_inputNames m3) = length (inputInfo s)"
    by simp_all
  with assms Some ex show ?thesis
    by (auto simp: load_def Let_def split: if_splits)
qed

lemma load_names:
  assumes "load eng modelPath useGPU m = (e, m')" "mm_modelLoaded m'"
  shows "\<exists>s. createSession eng modelPath useGPU = Some s \<and>
           mm_inputNames m' = map fst (inputInfo s)"
proof (cases "createSession eng modelPath useGPU")
  case None
  with assms show ?thesis by (auto simp: load_def Let_def)
next
  case (Some s)
  let ?m2 = "(if mm_modelLoaded m then unload m else m)\<lparr>mm_modelLoaded := False,
    mm_session := Some s\<rparr>"
  obtain ok m3 where ex: "extractModelInfo s ?m2 = (ok, m3)"
    by (metis surj_pair)
  from extractModelInfo_result [OF ex] have nl: "\<not> mm_modelLoaded m3" by simp
  from assms Some ex nl have ok: "ok" and m': "m' = m3\<lparr>mm_modelLoaded := True\<rparr>"
    by (auto simp: load_def Let_def split: if_splits)
  from ex ok have "extractModelInfo s ?m2 = (True, m3)" by simp
  then have "mm_inputNames m3 = map fst (inputInfo s)"
    by (rule extractModelInfo_names)
  with Some m' show ?thesis by simp
qed

lemma loadModel_no_input:
  assumes "op_modelPath op = Some path" "path \<noteq> []"
    and "createSession eng path (op_useGPU op) = Some s" "inputInfo s = []"
  shows "fst (loadModel eng op) = Some ModelLoadError \<and>
         \<not> isLoaded (op_modelManager (snd (loadModel eng op)))"
proof -
  obtain le m where l: "load eng path (op_useGPU op) (op_modelManager op) = (le, m)"
    by (metis surj_pair)
  note lr = load_result [OF l]
  show ?thesis
  proof (cases le)
    case (Some err)
    with lr have nl: "\<not> mm_modelLoaded m" by simp
    from l Some assms(3) have "err = ModelLoadError"
      by (auto simp: load_def Let_def split: prod.splits if_splits)
    with assms(1,2) l Some nl show ?thesis
      by (simp add: loadModel_def Let_def isLoaded_def)
  next
    case None
    with lr assms(3,4) have "length (mm_inputNames m) = 0" by auto
    then have "getInputCount m \<le> 0" by (simp add: getInputCount_def)
    with assms(1,2) l None show ?thesis
      by (simp add: loadModel_def Let_def isLoaded_def unload_def)
  qed
qed

lemma loadModel_manager:
  assumes "loadModel eng op = (e, op')"
    and "isLoaded (op_modelManager op) \<longrightarrow> mm_inputNames (op_modelManager op) \<noteq> []"
  shows "isLoaded (op_modelManager op') \<longrightarrow> mm_inputNames (op_modelManager op') \<noteq> []"
proof (cases "op_modelPath op = None \<or> op_modelPath op = Some []")
  case True
  with assms show ?thesis by (auto simp: loadModel_def Let_def)
next
  case False
  then obtain path where path: "op_modelPath op = Some path" "path \<noteq> []" by auto
  obtain le m where l: "load eng path (op_useGPU op) (op_modelManager op) = (le, m)"
    by (metis surj_pair)
  note lr = load_result [OF l]
  show ?thesis
  proof (cases le)
    case (Some err)
    with lr have "\<not> mm_modelLoaded m" by simp
    with assms(1) path l Some show ?thesis
      by (auto simp: loadModel_def Let_def isLoaded_def)
  next
    case None
    show ?thesis
    proof (cases "getInputCount m \<le> 0")
      case True
      with assms(1) path l None show ?thesis
        by (auto simp: loadModel_def Let_def isLoaded_def unload_def)
    next
      case False
      then have ne: "mm_inputNames m \<noteq> []" by (auto simp: getInputCount_def)
      from assms(1) path l None False have "op_modelManager op' = m"
        by (auto simp: loadModel_def Let_def updateActiveInputs_def split: option.splits)
      with ne show ?thesis by simp
    qed
  qed
qed

lemma processOutput_keeps:
  "processOutput outputTensors m = Inr (m', out) \<Longrightarrow>
   isLoaded m' = isLoaded m \<and> mm_inputNames m' = mm_inputNames m"
  by (auto simp: processOutput_def isLoaded_def split: list.splits OrtValue.splits if_splits)

lemma managerRunInference_keeps:
  "managerRunInference eng inputTensor inputShape m = Inr (m', out) \<Longrightarrow>
   isLoaded m' = isLoaded m \<and> mm_inputNames m' = mm_inputNames m"
  by (auto simp: managerRunInference_def split: option.splits if_splits dest: processOutput_keeps)

lemma runInferenceMultiInput_keeps:
  "runInferenceMultiInput eng inputTensors inputShapes inputNames m = Inr (m', out) \<Longrightarrow>
   isLoaded m' = isLoaded m \<and> mm_inputNames m' = mm_inputNames m"
  by (auto simp: runInferenceMultiInput_def split: option.splits if_splits sum.splits
      dest: processOutput_keeps)

text \<open>
  C4. The specification says that every operation of the model handle keeps the invariant
  "a loaded handle has at least one declared input", whatever metadata the engine
  reports. \<open>ONNXModelManager::load\<close> does not test the number of inputs: it marks the handle
  loaded with exactly the inputs the engine reports, also when there are none. The test is
  made by the operator's \<open>loadModel\<close>, which unloads such a handle again and fails with
  \<open>ModelLoadError\<close>. So: \<open>loadModel\<close> keeps the invariant (and a handle it leaves loaded has
  \<open>getInputCount() \<ge> 1\<close>); a new handle and an unloaded one are not loaded; both inference
  entry points leave the load state and the input names as they are; a handle that
  \<open>load\<close> leaves loaded has as many input names as the engine reported slots; whenever the
  session the engine creates for the operator's model path reports no input, \<open>loadModel\<close>
  fails with \<open>ModelLoadError\<close> and leaves the handle not loaded; and the input names of a
  handle that \<open>load\<close> leaves loaded are the names the engine reported, in their order.
\<close>

theorem loaded_handle_has_input:
  "((isLoaded (op_modelManager op) \<longrightarrow> mm_inputNames (op_modelManager op) \<noteq> []) \<longrightarrow>
      (isLoaded (op_modelManager (snd (loadModel eng op))) \<longrightarrow>
         mm_inputNames (op_modelManager (snd (loadModel eng op))) \<noteq> [] \<and>
         1 \<le> getInputCount (op_modelManager (snd (loadModel eng op))))) \<and>
   \<not> isLoaded newModelManager \<and>
   \<not> isLoaded (unload m) \<and>
   (\<forall>m' out. managerRunInference eng inputTensor inputShape m = Inr (m', out) \<longrightarrow>
      isLoaded m' = isLoaded m \<and> mm_inputNames m' = mm_inputNames m) \<and>
   (\<forall>m' out. runInferenceMultiInput eng inputTensors inputShapes inputNames m = Inr (m', out) \<longrightarrow>
      isLoaded m' = isLoaded m \<and> mm_inputNames m' = mm_inputNames m) \<and>
   (isLoaded (snd (load eng modelPath useGPU m)) \<longrightarrow>
      (\<exists>s. createSession eng modelPath useGPU = Some s \<and>
         length (mm_inputNames (snd (load eng modelPath useGPU m))) = length (inputInfo s))) \<and>
   (\<forall>path s. op_modelPath op = Some path \<and> path \<noteq> [] \<and>
        createSession eng path (op_useGPU op) = Some s \<and> inputInfo s = [] \<longrightarrow>
      fst (loadModel eng op) = Some ModelLoadError \<and>
      \<not> isLoaded (op_modelManager (snd (loadModel eng op)))) \<and>
   (isLoaded (snd (load eng modelPath useGPU m)) \<longrightarrow>
      (\<exists>s. createSession eng modelPath useGPU = Some s \<and>
         mm_inputNames (snd (load eng modelPath useGPU m)) = map fst (inputInfo s)))"
proof (intro conjI allI impI)
  assume "isLoaded (op_modelManager op) \<longrightarrow> mm_inputNames (op_modelManager op) \<noteq> []"
    and "isLoaded (op_modelManager (snd (loadModel eng op)))"
  then show "mm_inputNames (op_modelManager (snd (loadModel eng op))) \<noteq> []"
    using loadModel_manager [of eng op "fst (loadModel eng op)" "snd (loadModel eng op)"]
    by simp
  then show "1 \<le> getInputCount (op_modelManager (snd (loadModel eng op)))"
    by (cases "mm_inputNames (op_modelManager (snd (loadModel eng op)))")
      (simp_all add: getInputCount_def)
next
  show "\<not> isLoaded newModelManager"
    by (simp add: isLoaded_def newModelManager_def)
next
  show "\<not> isLoaded (unload m)"
    by (simp add: isLoaded_def unload_def)
next
  fix m' out
  assume "managerRunInference eng inputTensor inputShape m = Inr (m', out)"
  then show "isLoaded m' = isLoaded m" "mm_inputNames m' = mm_inputNames m"
    using managerRunInference_keeps by blast+
next
  fix m' out
  assume "runInferenceMultiInput eng inputTensors inputShapes inputNames m = Inr (m', out)"
  then show "isLoaded m' = isLoaded m" "mm_inputNames m' = mm_inputNames m"
    using runInferenceMultiInput_keeps by blast+
next
  assume "isLoaded (snd (load eng modelPath useGPU m))"
  then show "\<exists>s. createSession eng modelPath useGPU = Some s \<and>
         length (mm_inputNames (snd (load eng modelPath useGPU m))) = length (inputInfo s)"
    using load_result [of eng modelPath useGPU m "fst (load eng modelPath useGPU m)"
        "snd (load eng modelPath useGPU m)"]
    by (auto simp: isLoaded_def)
next
  fix path s
  assume "op_modelPath op = Some path \<and> path \<noteq> [] \<and>
        createSession eng path (op_useGPU op) = Some s \<and> inputInfo s = []"
  then have "fst (loadModel eng op) = Some ModelLoadError \<and>
      \<not> isLoaded (op_modelManager (snd (loadModel eng op)))"
    using loadModel_no_input [of op path eng s] by blast
  then show "fst (loadModel eng op) = Some ModelLoadError"
    "\<not> isLoaded (op_modelManager (snd (loadModel eng op)))"
    by blast+
next
  assume "isLoaded (snd (load eng modelPath useGPU m))"
  then show "\<exists>s. createSession eng modelPath useGPU = Some s \<and>
         mm_inputNames (snd (load eng modelPath useGPU m)) = map fst (inputInfo s)"
    using load_names [of eng modelPath useGPU m "fst (load eng modelPath useGPU m)"
        "snd (load eng modelPath useGPU m)"]
    by (simp add: isLoaded_def)
qed

theorem loaded_handle_has_input_witness:
  "isLoaded (op_modelManager (snd (loadModel exampleEngine exampleOp))) \<and>
   mm_inputNames (op_modelManager (snd (loadModel exampleEngine exampleOp))) \<noteq> [] \<and>
   1 \<le> getInputCount (op_modelManager (snd (loadModel exampleEngine exampleOp))) \<and>
   loadModel constantEngine exampleOp = (Some ModelLoadError, exampleOp) \<and>
   fst (loadModel constantEngine exampleOp) = Some ModelLoadError \<and>
   \<not> isLoaded (op_modelManager (snd (loadModel constantEngine exampleOp))) \<and>
   isLoaded (snd (load exampleEngine ''model.onnx'' False newModelManager)) \<and>
   mm_inputNames (snd (load exampleEngine ''model.onnx'' False newModelManager)) =
     [''img'', ''aux'']"
proof -
  have before: "isLoaded (op_modelManager exampleOp) \<longrightarrow>
      mm_inputNames (op_modelManager exampleOp) \<noteq> []"
    by (simp add: exampleOp_def isLoaded_def newModelManager_def)
  have loaded: "isLoaded (op_modelManager (snd (loadModel exampleEngine exampleOp)))"
    by (simp add: loadModel_def exampleOp_def load_def exampleEngine_def exampleSession_def
        newModelManager_def extractModelInfo_def getInputCount_def getOutputDimensions_def
        updateActiveInputs_def isLoaded_def maximum_inputs_def Let_def numeral_2_eq_2 int32_def)
  have guard: "loadModel constantEngine exampleOp = (Some ModelLoadError, exampleOp)"
    by (simp add: loadModel_def exampleOp_def load_def constantEngine_def
        newModelManager_def extractModelInfo_def getInputCount_def unload_def Let_def)
  from loaded_handle_has_input [where op = exampleOp and eng = exampleEngine] before loaded
  have kept: "mm_inputNames (op_modelManager (snd (loadModel exampleEngine exampleOp))) \<noteq> [] \<and>
      1 \<le> getInputCount (op_modelManager (snd (loadModel exampleEngine exampleOp)))"
    by blast
  have "\<exists>path s. op_modelPath exampleOp = Some path \<and> path \<noteq> [] \<and>
      createSession constantEngine path (op_useGPU exampleOp) = Some s \<and> inputInfo s = []"
    by (simp add: exampleOp_def constantEngine_def)
  with loaded_handle_has_input [where op = exampleOp and eng = constantEngine]
  have refused: "fst (loadModel constantEngine exampleOp) = Some ModelLoadError \<and>
      \<not> isLoaded (op_modelManager (snd (loadModel constantEngine exampleOp)))"
    by blast
  have after_load: "isLoaded (snd (load exampleEngine ''model.onnx'' False newModelManager))"
    by (simp add: load_def exampleEngine_def exampleSession_def newModelManager_def
        extractModelInfo_def isLoaded_def Let_def numeral_2_eq_2)
  with loaded_handle_has_input [where eng = exampleEngine and modelPath = "''model.onnx''"
      and useGPU = False and m = newModelManager]
  obtain s where "createSession exampleEngine ''model.onnx'' False = Some s"
    "mm_inputNames (snd (load exampleEngine ''model.onnx'' False newModelManager)) =
       map fst (inputInfo s)"
    by blast
  then have names: "mm_inputNames (snd (load exampleEngine ''model.onnx'' False newModelManager)) =
      [''img'', ''aux'']"
    by (auto simp: exampleEngine_def exampleSession_def)
  from loaded kept guard refused after_load names show ?thesis by blast
qed

theorem load_no_input_counterexample:
  "(case load constantEngine ''constants.onnx'' False newModelManager of
      (e, m') \<Rightarrow> e = None \<and> isLoaded m' \<and> mm_inputNames m' = [] \<and> getInputCount m' = 0)"
  by (simp add: load_def constantEngine_def newModelManager_def extractModelInfo_def
      isLoaded_def getInputCount_def Let_def)

section \<open>Properties of tileToNCHWTensor\<close>

lemma int32_of_nat: "n < 2 ^ 31 \<Longrightarrow> int32 (int n) = int n"
  by (simp add: int32_def)

lemma to_size_t_of_nat: "n < 2 ^ 31 \<Longrightarrow> to_size_t (int n) = n"
  by (simp add: to_size_t_def)

lemma row_major_index:
  "w < W \<Longrightarrow> (i = R * W + w) = (i div W = R \<and> i mod W = (w :: nat))"
  by auto

lemma plane_index:
  "0 < H \<Longrightarrow> 0 < W \<Longrightarrow> (i div W div H = c) = (c * H * W \<le> i \<and> i < (c + 1) * H * (W :: nat))"
proof -
  assume "0 < H" "0 < W"
  then have "0 < H * W" by simp
  have "i div W div H = i div (H * W)"
    by (simp add: div_mult2_eq [symmetric] mult.commute)
  moreover have "(i div (H * W) = c) = (c * (H * W) \<le> i \<and> i < (c + 1) * (H * W))"
    using \<open>0 < H * W\<close>
    by (metis Suc_eq_plus1 add.commute div_nat_eqI less_mult_imp_div_less  mult.commute
        div_times_less_eq_dividend dividend_less_times_div mult_Suc_right)
  ultimately show ?thesis by (simp add: algebra_simps)
qed

lemma dstIdx_exact:
  assumes "0 < W" "c * H * W + h * W + w < 2 ^ 31"
  shows "dstIdx (int c) (int h) (int w) (int W) (int H) = c * H * W + h * W + w"
proof -
  have "c * H \<le> c * H * W" using assms(1) by (cases W) simp_all
  with assms(2) have a1: "c * H < 2 ^ 31" by linarith
  from assms(2) have a2: "c * H * W < 2 ^ 31" and a3: "h * W < 2 ^ 31"
    and a4: "c * H * W + h * W < 2 ^ 31" by simp_all
  have "int32 (int c * int H) = int (c * H)"
    using int32_of_nat [OF a1] by simp
  moreover have "int32 (int (c * H) * int W) = int (c * H * W)"
    using int32_of_nat [OF a2] by simp
  moreover have "int32 (int h * int W) = int (h * W)"
    using int32_of_nat [OF a3] by simp
  moreover have "int32 (int (c * H * W) + int (h * W)) = int (c * H * W + h * W)"
    using int32_of_nat [OF a4] by simp
  moreover have "int32 (int (c * H * W + h * W) + int w) = int (c * H * W + h * W + w)"
    using int32_of_nat [OF assms(2)] by simp
  ultimately show ?thesis
    using to_size_t_of_nat [OF assms(2)] by (simp add: dstIdx_def)
qed


lemma planeOffset_nat:
  assumes "0 < W" "c * H * W < 2 ^ 31"
  shows "planeOffset (int c) (int H) (int W) = c * H * W"
  using planeOffset_exact [of "int c" "int H" "int W"] assms
  by (cases "H = 0") (simp_all add: planeOffset_def int32_def to_size_t_def flip: of_nat_mult)

lemma copyRow_result:
  assumes "0 < W" "c * H * W + h * W + W \<le> length t" "length t < 2 ^ 31"
    and "\<forall>w \<in> set ws. w < W"
  shows "\<exists>t'. copyRow srcRow x (int c) (int h) (int W) (int H) ws t = Inr t' \<and>
           length t' = length t \<and>
           (\<forall>i < length t. t' ! i =
              (if i div W = c * H + h \<and> i mod W \<in> set ws
               then srcRow (int32 (int (i mod W) + x)) else t ! i))"
  using assms(2-)
proof (induction ws arbitrary: t)
  case Nil
  then show ?case by simp
next
  case (Cons w ws)
  let ?d = "c * H * W + h * W + w"
  from Cons.prems have w: "w < W" by simp
  with Cons.prems have d: "?d < length t" "?d < 2 ^ 31" by simp_all
  then have idx: "dstIdx (int c) (int h) (int w) (int W) (int H) = ?d"
    using dstIdx_exact [OF assms(1)] by simp
  let ?t1 = "t[?d := srcRow (int32 (int w + x))]"
  from Cons.prems have "c * H * W + h * W + W \<le> length ?t1" "length ?t1 < 2 ^ 31"
    "\<forall>w \<in> set ws. w < W"
    by simp_all
  from Cons.IH [OF this] obtain t' where
    t': "copyRow srcRow x (int c) (int h) (int W) (int H) ws ?t1 = Inr t'"
      "length t' = length ?t1"
      "\<forall>i < length ?t1. t' ! i =
              (if i div W = c * H + h \<and> i mod W \<in> set ws
               then srcRow (int32 (int (i mod W) + x)) else ?t1 ! i)"
    by blast
  have here: "(i = ?d) = (i div W = c * H + h \<and> i mod W = w)" for i
    using row_major_index [OF w, of i "c * H + h"] by (simp add: algebra_simps)
  have "t' ! i = (if i div W = c * H + h \<and> i mod W \<in> set (w # ws)
               then srcRow (int32 (int (i mod W) + x)) else t ! i)"
    if "i < length t" for i
  proof (cases "i = ?d")
    case True
    with that t'(3) here [of i] show ?thesis by auto
  next
    case False
    with that t'(3) here [of i] show ?thesis by auto
  qed
  with t'(1,2) idx d show ?case by simp
qed


lemma copyRows_result:
  assumes "0 < W" "(c + 1) * H * W \<le> length t" "length t < 2 ^ 31"
    and "\<forall>h \<in> set hs. h < H"
  shows "\<exists>t'. copyRows tile chan (int c) (int W) (int H) hs t = Inr t' \<and>
           length t' = length t \<and>
           (\<forall>i < length t. t' ! i =
              (if i div W div H = c \<and> i div W mod H \<in> set hs then
                 (case tile_rows tile chan (int32 (int (i div W mod H) + tile_y tile)) of
                   None \<Rightarrow> t ! i
                 | Some srcRow \<Rightarrow> srcRow (int32 (int (i mod W) + tile_x tile)))
               else t ! i))"
  using assms(2-)
proof (induction hs arbitrary: t)
  case Nil
  then show ?case by simp
next
  case (Cons h hs)
  from Cons.prems have h: "h < H" by simp
  have here: "(i div W = c * H + h) = (i div W div H = c \<and> i div W mod H = h)" for i
    using row_major_index [OF h, of "i div W" c] by simp
  show ?case
  proof (cases "tile_rows tile chan (int32 (int h + tile_y tile))")
    case None
    from Cons.prems have "(c + 1) * H * W \<le> length t" "length t < 2 ^ 31"
      "\<forall>h \<in> set hs. h < H"
      by simp_all
    from Cons.IH [OF this] obtain t' where
      t': "copyRows tile chan (int c) (int W) (int H) hs t = Inr t'" "length t' = length t"
        "\<forall>i < length t. t' ! i =
              (if i div W div H = c \<and> i div W mod H \<in> set hs then
                 (case tile_rows tile chan (int32 (int (i div W mod H) + tile_y tile)) of
                   None \<Rightarrow> t ! i
                 | Some srcRow \<Rightarrow> srcRow (int32 (int (i mod W) + tile_x tile)))
               else t ! i)"
      by blast
    have "t' ! i =
        (if i div W div H = c \<and> i div W mod H \<in> set (h # hs) then
           (case tile_rows tile chan (int32 (int (i div W mod H) + tile_y tile)) of
             None \<Rightarrow> t ! i
           | Some srcRow \<Rightarrow> srcRow (int32 (int (i mod W) + tile_x tile)))
         else t ! i)"
      if "i < length t" for i
      using that t'(3) None by (cases "i div W mod H = h") auto
    with t'(1,2) None show ?thesis by simp
  next
    case (Some srcRow)
    have "(c + 1) * H * W = c * H * W + H * W" by (simp add: algebra_simps)
    moreover have "h * W + W \<le> H * W"
      using h by (metis Suc_leI mult_Suc mult_le_mono1 add.commute)
    ultimately have "c * H * W + h * W + W \<le> length t"
      using Cons.prems(1) by linarith
    from copyRow_result [OF assms(1) this Cons.prems(2), of "[0..<W]" srcRow "tile_x tile"]
    obtain t1 where
      t1: "copyRow srcRow (tile_x tile) (int c) (int h) (int W) (int H) [0..<W] t = Inr t1"
        "length t1 = length t"
        "\<forall>i < length t. t1 ! i =
           (if i div W = c * H + h then srcRow (int32 (int (i mod W) + tile_x tile)) else t ! i)"
      using assms(1) by auto
    from Cons.prems t1(2) have "(c + 1) * H * W \<le> length t1" "length t1 < 2 ^ 31"
      "\<forall>h \<in> set hs. h < H"
      by simp_all
    from Cons.IH [OF this] obtain t' where
      t': "copyRows tile chan (int c) (int W) (int H) hs t1 = Inr t'" "length t' = length t1"
        "\<forall>i < length t1. t' ! i =
              (if i div W div H = c \<and> i div W mod H \<in> set hs then
                 (case tile_rows tile chan (int32 (int (i div W mod H) + tile_y tile)) of
                   None \<Rightarrow> t1 ! i
                 | Some srcRow \<Rightarrow> srcRow (int32 (int (i mod W) + tile_x tile)))
               else t1 ! i)"
      by blast
    have "t' ! i =
        (if i div W div H = c \<and> i div W mod H \<in> set (h # hs) then
           (case tile_rows tile chan (int32 (int (i div W mod H) + tile_y tile)) of
             None \<Rightarrow> t ! i
           | Some srcRow \<Rightarrow> srcRow (int32 (int (i mod W) + tile_x tile)))
         else t ! i)"
      if "i < length t" for i
    proof (cases "i div W div H = c \<and> i div W mod H = h")
      case True
      with that t'(3) t1(2,3) here [of i] Some show ?thesis by auto
    next
      case False
      with that t'(3) t1(2,3) here [of i] show ?thesis by (auto split: option.splits)
    qed
    with t'(1,2) t1(1,2) Some show ?thesis by simp
  qed
qed

lemma nth_fill:
  assumes "a + n \<le> length t" "i < length t"
  shows "(take a t @ replicate n z @ drop (a + n) t) ! i =
           (if a \<le> i \<and> i < a + n then z else t ! i)"
proof -
  consider "i < a" | "a \<le> i \<and> i < a + n" | "a + n \<le> i"
    by linarith
  then show ?thesis
  proof cases
    case 1
    with assms show ?thesis by (simp add: nth_append)
  next
    case 2
    then have "i - a < n" by linarith
    with 2 assms show ?thesis by (simp add: nth_append)
  next
    case 3
    then have "\<not> i < a" "\<not> i - a < n" "a + n + (i - a - n) = i" by linarith+
    with 3 assms show ?thesis by (simp add: nth_append)
  qed
qed

lemma fillZero_result:
  assumes "0 < W" "0 < H" "(c + 1) * H * W \<le> length t"
  shows "\<exists>t'. fillZero t (c * H * W) (int (H * W)) = Inr t' \<and> length t' = length t \<and>
           (\<forall>i < length t. t' ! i = (if i div W div H = c then Finite 0 else t ! i))"
proof -
  have le: "c * H * W + H * W \<le> length t"
    using assms(3) by (simp add: algebra_simps)
  let ?t' = "take (c * H * W) t @ replicate (H * W) (Finite 0) @ drop (c * H * W + H * W) t"
  have f: "fillZero t (c * H * W) (int (H * W)) = Inr ?t'"
    using le by (simp add: fillZero_def del: of_nat_mult)
  have len: "length ?t' = length t" using le by simp
  have "?t' ! i = (if i div W div H = c then Finite 0 else t ! i)" if "i < length t" for i
  proof -
    have "(i div W div H = c) = (c * H * W \<le> i \<and> i < c * H * W + H * W)"
      using plane_index [OF assms(2,1), of i c] by (simp add: algebra_simps)
    with nth_fill [OF le that, of "Finite 0"] show ?thesis by simp
  qed
  with f len show ?thesis by blast
qed


lemma copyChannels_result:
  assumes "0 < W" "0 < H" "C * H * W \<le> length t" "length t < 2 ^ 31"
    and "\<forall>c \<in> set cs. c < C" "distinct cs"
  shows "\<exists>t'. copyChannels tile (int W) (int H) cs t = Inr t' \<and>
           length t' = length t \<and>
           (\<forall>i < length t. t' ! i =
              (if i div W div H \<in> set cs then
                 (case channelOf (int (i div W div H)) of
                   None \<Rightarrow> t ! i
                 | Some chan \<Rightarrow>
                     if chan \<notin> tile_channels tile then Finite 0
                     else
                       (case tile_rows tile chan (int32 (int (i div W mod H) + tile_y tile)) of
                         None \<Rightarrow> t ! i
                       | Some srcRow \<Rightarrow> srcRow (int32 (int (i mod W) + tile_x tile))))
               else t ! i))"
  using assms(3-)
proof (induction cs arbitrary: t)
  case Nil
  then show ?case by simp
next
  case (Cons c cs)
  from Cons.prems have c: "c < C" "c \<notin> set cs" by simp_all
  then have "(c + 1) * H * W \<le> C * H * W"
    by (intro mult_le_mono1) simp
  with Cons.prems have plane: "(c + 1) * H * W \<le> length t" by linarith
  then have small: "c * H * W < 2 ^ 31" "H * W < 2 ^ 31"
    using Cons.prems(2) by (simp_all add: algebra_simps)
  have step: "\<exists>t'. copyChannels tile (int W) (int H) cs t1 = Inr t' \<and>
           length t' = length t \<and>
           (\<forall>i < length t. t' ! i =
              (if i div W div H \<in> set cs then
                 (case channelOf (int (i div W div H)) of
                   None \<Rightarrow> t1 ! i
                 | Some chan \<Rightarrow>
                     if chan \<notin> tile_channels tile then Finite 0
                     else
                       (case tile_rows tile chan (int32 (int (i div W mod H) + tile_y tile)) of
                         None \<Rightarrow> t1 ! i
                       | Some srcRow \<Rightarrow> srcRow (int32 (int (i mod W) + tile_x tile))))
               else t1 ! i))"
    if "length t1 = length t" for t1
    using Cons.IH [of t1] Cons.prems that by simp
  show ?case
  proof (cases "channelOf (int c)")
    case None
    from step [of t] obtain t' where
      t': "copyChannels tile (int W) (int H) cs t = Inr t'" "length t' = length t"
        "\<forall>i < length t. t' ! i =
              (if i div W div H \<in> set cs then
                 (case channelOf (int (i div W div H)) of
                   None \<Rightarrow> t ! i
                 | Some chan \<Rightarrow>
                     if chan \<notin> tile_channels tile then Finite 0
                     else
                       (case tile_rows tile chan (int32 (int (i div W mod H) + tile_y tile)) of
                         None \<Rightarrow> t ! i
                       | Some srcRow \<Rightarrow> srcRow (int32 (int (i mod W) + tile_x tile))))
               else t ! i)"
      by blast
    have "t' ! i =
        (if i div W div H \<in> set (c # cs) then
                 (case channelOf (int (i div W div H)) of
                   None \<Rightarrow> t ! i
                 | Some chan \<Rightarrow>
                     if chan \<notin> tile_channels tile then Finite 0
                     else
                       (case tile_rows tile chan (int32 (int (i div W mod H) + tile_y tile)) of
                         None \<Rightarrow> t ! i
                       | Some srcRow \<Rightarrow> srcRow (int32 (int (i mod W) + tile_x tile))))
         else t ! i)"
      if "i < length t" for i
      using that t'(3) None c(2) by (cases "i div W div H = c") auto
    with t'(1,2) None show ?thesis by simp
  next
    case (Some chan)
    show ?thesis
    proof (cases "chan \<in> tile_channels tile")
      case False
      have off: "planeOffset (int c) (int H) (int W) = c * H * W"
        using planeOffset_nat [OF assms(1) small(1)] .
      have cnt: "int32 (int H * int W) = int (H * W)"
        using int32_of_nat [OF small(2)] by simp
      from fillZero_result [OF assms(1,2) plane] obtain t1 where
        t1: "fillZero t (c * H * W) (int (H * W)) = Inr t1" "length t1 = length t"
          "\<forall>i < length t. t1 ! i = (if i div W div H = c then Finite 0 else t ! i)"
        by blast
      from step [OF t1(2)] obtain t' where
        t': "copyChannels tile (int W) (int H) cs t1 = Inr t'" "length t' = length t"
          "\<forall>i < length t. t' ! i =
              (if i div W div H \<in> set cs then
                 (case channelOf (int (i div W div H)) of
                   None \<Rightarrow> t1 ! i
                 | Some chan \<Rightarrow>
                     if chan \<notin> tile_channels tile then Finite 0
                     else
                       (case tile_rows tile chan (int32 (int (i div W mod H) + tile_y tile)) of
                         None \<Rightarrow> t1 ! i
                       | Some srcRow \<Rightarrow> srcRow (int32 (int (i mod W) + tile_x tile))))
               else t1 ! i)"
        by blast
      have "t' ! i =
          (if i div W div H \<in> set (c # cs) then
                 (case channelOf (int (i div W div H)) of
                   None \<Rightarrow> t ! i
                 | Some chan \<Rightarrow>
                     if chan \<notin> tile_channels tile then Finite 0
                     else
                       (case tile_rows tile chan (int32 (int (i div W mod H) + tile_y tile)) of
                         None \<Rightarrow> t ! i
                       | Some srcRow \<Rightarrow> srcRow (int32 (int (i mod W) + tile_x tile))))
           else t ! i)"
        if "i < length t" for i
      proof (cases "i div W div H = c")
        case True
        with that t'(3) t1(3) Some False c(2) show ?thesis by simp
      next
        case ne: False
        with that t1(3) have "t1 ! i = t ! i" by simp
        with that t'(3) ne show ?thesis by (simp split: option.splits)
      qed
      with t'(1,2) t1(1) Some False off cnt show ?thesis by simp
    next
      case True
      from copyRows_result [OF assms(1) plane Cons.prems(2), of "[0..<H]" tile chan]
      obtain t1 where
        t1: "copyRows tile chan (int c) (int W) (int H) [0..<H] t = Inr t1"
          "length t1 = length t"
          "\<forall>i < length t. t1 ! i =
             (if i div W div H = c then
                (case tile_rows tile chan (int32 (int (i div W mod H) + tile_y tile)) of
                  None \<Rightarrow> t ! i
                | Some srcRow \<Rightarrow> srcRow (int32 (int (i mod W) + tile_x tile)))
              else t ! i)"
        using assms(2) by auto
      from step [OF t1(2)] obtain t' where
        t': "copyChannels tile (int W) (int H) cs t1 = Inr t'" "length t' = length t"
          "\<forall>i < length t. t' ! i =
              (if i div W div H \<in> set cs then
                 (case channelOf (int (i div W div H)) of
                   None \<Rightarrow> t1 ! i
                 | Some chan \<Rightarrow>
                     if chan \<notin> tile_channels tile then Finite 0
                     else
                       (case tile_rows tile chan (int32 (int (i div W mod H) + tile_y tile)) of
                         None \<Rightarrow> t1 ! i
                       | Some srcRow \<Rightarrow> srcRow (int32 (int (i mod W) + tile_x tile))))
               else t1 ! i)"
        by blast
      have "t' ! i =
          (if i div W div H \<in> set (c # cs) then
                 (case channelOf (int (i div W div H)) of
                   None \<Rightarrow> t ! i
                 | Some chan \<Rightarrow>
                     if chan \<notin> tile_channels tile then Finite 0
                     else
                       (case tile_rows tile chan (int32 (int (i div W mod H) + tile_y tile)) of
                         None \<Rightarrow> t ! i
                       | Some srcRow \<Rightarrow> srcRow (int32 (int (i mod W) + tile_x tile))))
           else t ! i)"
        if "i < length t" for i
      proof (cases "i div W div H = c")
        case eq: True
        with that t'(3) t1(3) Some True c(2) show ?thesis by simp
      next
        case ne: False
        with that t1(3) have "t1 ! i = t ! i" by simp
        with that t'(3) ne show ?thesis by (simp split: option.splits)
      qed
      with t'(1,2) t1(1) Some True show ?thesis by simp
    qed
  qed
qed


lemma index_in_tensor:
  assumes "c < C" "h < H" "w < (W :: nat)"
  shows "c * H * W + h * W + w < C * H * W"
proof -
  have "c * H + h < (c + 1) * H" using assms(2) by simp
  moreover have "(c + 1) * H \<le> C * H" using assms(1) by (intro mult_le_mono1) simp
  ultimately have "c * H + h + 1 \<le> C * H" by linarith
  then have "(c * H + h + 1) * W \<le> C * H * W" by (rule mult_le_mono1)
  moreover have "c * H * W + h * W + w < (c * H + h + 1) * W"
    using assms(3) by (simp add: algebra_simps)
  ultimately show ?thesis by linarith
qed

lemma index_parts:
  assumes "h < H" "w < (W :: nat)"
  shows "(c * H * W + h * W + w) div W div H = c"
    and "(c * H * W + h * W + w) div W mod H = h"
    and "(c * H * W + h * W + w) mod W = w"
proof -
  have e: "c * H * W + h * W + w = (c * H + h) * W + w" by (simp add: algebra_simps)
  from assms(2) have d: "((c * H + h) * W + w) div W = c * H + h" by simp
  from assms(1) show "(c * H * W + h * W + w) div W div H = c"
    unfolding e d by simp
  from assms(1) show "(c * H * W + h * W + w) div W mod H = h"
    unfolding e d by simp
  from assms(2) show "(c * H * W + h * W + w) mod W = w"
    unfolding e by simp
qed

lemma resize_size:
  assumes "0 < W" "0 < H" "C * H * W < 2 ^ 31"
  shows "to_size_t (int32 (int32 (int32 (1 * int C) * int H) * int W)) = C * H * W"
proof -
  have "C * H \<le> C * H * W" using assms(1) by (cases W) simp_all
  with assms(3) have a1: "C * H < 2 ^ 31" by linarith
  have "C \<le> C * H" using assms(2) by (cases H) simp_all
  with a1 have a0: "C < 2 ^ 31" by linarith
  have "int32 (1 * int C) = int C" using int32_of_nat [OF a0] by simp
  moreover have "int32 (int C * int H) = int (C * H)" using int32_of_nat [OF a1] by simp
  moreover have "int32 (int (C * H) * int W) = int (C * H * W)"
    using int32_of_nat [OF assms(3)] by simp
  ultimately show ?thesis using to_size_t_of_nat [OF assms(3)] by simp
qed

lemma tileToNCHWTensor_elements:
  assumes "0 < W" "0 < H" "0 < C" "C * H * W < 2 ^ 31"
  shows "\<exists>t. tileToNCHWTensor tile tensor (int W) (int H) (int C) = Inr t \<and>
           length t = C * H * W \<and>
           (\<forall>c < C. \<forall>h < H. \<forall>w < W.
              t ! (c * H * W + h * W + w) =
                (case channelOf (int c) of
                  None \<Rightarrow>
                    (take (C * H * W) tensor @ replicate (C * H * W - length tensor) (Finite 0)) !
                      (c * H * W + h * W + w)
                | Some chan \<Rightarrow>
                    if chan \<notin> tile_channels tile then Finite 0
                    else
                      (case tile_rows tile chan (int32 (int h + tile_y tile)) of
                        None \<Rightarrow>
                          (take (C * H * W) tensor @
                             replicate (C * H * W - length tensor) (Finite 0)) !
                            (c * H * W + h * W + w)
                      | Some srcRow \<Rightarrow> srcRow (int32 (int w + tile_x tile)))))"
proof -
  let ?N = "C * H * W"
  let ?t0 = "take ?N tensor @ replicate (?N - length tensor) (Finite 0)"
  have len0: "length ?t0 = ?N" by simp
  have "?N \<le> vector_max_size" using assms(4) by (simp add: vector_max_size_def)
  then have rs: "resize tensor ?N = Inr ?t0" by (simp add: resize_def)
  have "?N \<le> length ?t0" "length ?t0 < 2 ^ 31" "\<forall>c \<in> set [0..<C]. c < C" "distinct [0..<C]"
    using assms(4) by simp_all
  from copyChannels_result [OF assms(1,2) this, of tile] obtain t where
    t: "copyChannels tile (int W) (int H) [0..<C] ?t0 = Inr t" "length t = length ?t0"
      "\<forall>i < length ?t0. t ! i =
         (if i div W div H \<in> set [0..<C] then
            (case channelOf (int (i div W div H)) of
              None \<Rightarrow> ?t0 ! i
            | Some chan \<Rightarrow>
                if chan \<notin> tile_channels tile then Finite 0
                else
                  (case tile_rows tile chan (int32 (int (i div W mod H) + tile_y tile)) of
                    None \<Rightarrow> ?t0 ! i
                  | Some srcRow \<Rightarrow> srcRow (int32 (int (i mod W) + tile_x tile))))
          else ?t0 ! i)"
    by blast
  have run: "tileToNCHWTensor tile tensor (int W) (int H) (int C) = Inr t"
    using assms(1-3) rs t(1) resize_size [OF assms(1,2,4)]
    by (simp add: tileToNCHWTensor_def)
  have "t ! (c * H * W + h * W + w) =
      (case channelOf (int c) of
        None \<Rightarrow> ?t0 ! (c * H * W + h * W + w)
      | Some chan \<Rightarrow>
          if chan \<notin> tile_channels tile then Finite 0
          else
            (case tile_rows tile chan (int32 (int h + tile_y tile)) of
              None \<Rightarrow> ?t0 ! (c * H * W + h * W + w)
            | Some srcRow \<Rightarrow> srcRow (int32 (int w + tile_x tile))))"
    if "c < C" "h < H" "w < W" for c h w
  proof -
    have "c * H * W + h * W + w < length ?t0"
      using index_in_tensor [OF that] len0 by simp
    with t(3) that(1) show ?thesis
      by (simp only: index_parts [OF that(2,3)] set_upt atLeastLessThan_iff le0 simp_thms if_True)
  qed
  with run t(2) len0 show ?thesis by simp
qed


lemma int32_in_range: "- (2 ^ 31) \<le> n \<Longrightarrow> n < 2 ^ 31 \<Longrightarrow> int32 n = n"
  by (simp add: int32_def)

lemma channelOf_None: "0 \<le> c \<Longrightarrow> (channelOf c = None) = (4 \<le> c)"
  by (auto simp: channelOf_def)

text \<open>
  C10. The specification says that every call of \<open>tileToNCHWTensor\<close> with three positive
  dimensions returns normally and leaves the output buffer with exactly
  \<open>1 * channels * height * width\<close> elements, the product of the shape
  \<open>[1, channels, height, width]\<close>. The code computes that size in \<^verbatim>\<open>int\<close>. So: a call with
  a dimension that is not positive fails with \<open>PreprocessError\<close>; and a call with positive
  dimensions whose product \<open>channels * height * width\<close> is below \<open>2\<^sup>3\<^sup>1\<close> returns normally
  with a buffer of exactly that many elements, whatever the buffer held before.
\<close>

theorem tileToNCHWTensor_length:
  "(width \<le> 0 \<or> height \<le> 0 \<or> channels \<le> 0 \<longrightarrow>
      tileToNCHWTensor tile tensor width height channels = Inl PreprocessError) \<and>
   (0 < width \<and> 0 < height \<and> 0 < channels \<and> channels * height * width < 2 ^ 31 \<longrightarrow>
      (\<exists>t. tileToNCHWTensor tile tensor width height channels = Inr t \<and>
         int (length t) = 1 * channels * height * width))"
proof (intro conjI impI)
  assume "width \<le> 0 \<or> height \<le> 0 \<or> channels \<le> 0"
  then show "tileToNCHWTensor tile tensor width height channels = Inl PreprocessError"
    by (simp add: tileToNCHWTensor_def)
next
  assume a: "0 < width \<and> 0 < height \<and> 0 < channels \<and> channels * height * width < 2 ^ 31"
  define W H C where "W = nat width" and "H = nat height" and "C = nat channels"
  with a have eq: "width = int W" "height = int H" "channels = int C" by simp_all
  from a have "int (C * H * W) < 2 ^ 31" unfolding eq by simp
  then have small: "C * H * W < 2 ^ 31"
    by (simp only: of_nat_less_numeral_power_cancel_iff)
  from a have pos: "0 < W" "0 < H" "0 < C" unfolding eq by simp_all
  from tileToNCHWTensor_elements [OF pos small, of tile tensor] obtain t where
    "tileToNCHWTensor tile tensor (int W) (int H) (int C) = Inr t" "length t = C * H * W"
    by blast
  then show "\<exists>t. tileToNCHWTensor tile tensor width height channels = Inr t \<and>
         int (length t) = 1 * channels * height * width"
    unfolding eq by simp
qed

theorem tileToNCHWTensor_length_witness:
  "map_sum id length (tileToNCHWTensor exampleTile (replicate 13 (Finite 7)) 2 2 3) = Inr 12 \<and>
   tileToNCHWTensor exampleTile (replicate 13 (Finite 7)) 2 0 3 = Inl PreprocessError"
proof -
  have "(0 :: int) < 2 \<and> (0 :: int) < 2 \<and> (0 :: int) < 3 \<and> (3 :: int) * 2 * 2 < 2 ^ 31"
    by simp
  with tileToNCHWTensor_length [of 2 2 3 exampleTile "replicate 13 (Finite 7)"]
  obtain t where "tileToNCHWTensor exampleTile (replicate 13 (Finite 7)) 2 2 3 = Inr t"
    "int (length t) = 1 * 3 * 2 * 2"
    by blast
  then have "map_sum id length (tileToNCHWTensor exampleTile (replicate 13 (Finite 7)) 2 2 3)
      = Inr 12"
    by simp
  moreover have "tileToNCHWTensor exampleTile (replicate 13 (Finite 7)) 2 0 3
      = Inl PreprocessError"
    using tileToNCHWTensor_length [of 2 0 3 exampleTile "replicate 13 (Finite 7)"] by simp
  ultimately show ?thesis by blast
qed

theorem tileToNCHWTensor_length_counterexample:
  "(0 :: int) < 65537 \<and> (0 :: int) < 65536 \<and> (0 :: int) < 1 \<and>
   map_sum id length (tileToNCHWTensor emptyTile [] 65537 65536 1) = Inr 65536 \<and>
   int 65536 \<noteq> 1 * 1 * 65536 * 65537 \<and>
   tileToNCHWTensor exampleTile [] 32768 65536 1 = Inl StdError"
  by (simp add: tileToNCHWTensor_def resize_def vector_max_size_def to_size_t_def int32_def
      channelOf_def emptyTile_def fillZero_def planeOffset_def)

text \<open>
  C9. The specification states the following for all positive dimensions; it holds when
  the product \<open>channels * height * width\<close> is below \<open>2\<^sup>3\<^sup>1\<close>, for a region whose columns
  \<open>[x, x + width)\<close> and rows \<open>[y, y + height)\<close> are \<^verbatim>\<open>int\<close> coordinates. The call returns
  normally, and for every plane \<open>c < channels\<close>, row \<open>h < height\<close> and column \<open>w < width\<close> the
  element \<open>c * height * width + h * width + w\<close> is inside the buffer and: for \<open>c \<ge> 4\<close> it is
  what the resized input buffer held (the plane is never written); for \<open>c < 4\<close> with a
  channel the region does not hold it is \<open>0.0\<close>; for \<open>c < 4\<close> with a channel the region holds
  and a present source row it is the source pixel of that channel at row \<open>h + y\<close> and
  column \<open>w + x\<close>.
\<close>

theorem tileToNCHWTensor_planes:
  "0 < width \<Longrightarrow> 0 < height \<Longrightarrow> 0 < channels \<Longrightarrow> channels * height * width < 2 ^ 31 \<Longrightarrow>
   - (2 ^ 31) \<le> tile_x tile \<Longrightarrow> tile_x tile + width \<le> 2 ^ 31 \<Longrightarrow>
   - (2 ^ 31) \<le> tile_y tile \<Longrightarrow> tile_y tile + height \<le> 2 ^ 31 \<Longrightarrow>
   \<exists>t. tileToNCHWTensor tile tensor width height channels = Inr t \<and>
     (\<forall>c h w. 0 \<le> c \<and> c < channels \<and> 0 \<le> h \<and> h < height \<and> 0 \<le> w \<and> w < width \<longrightarrow>
        nat (c * height * width + h * width + w) < length t \<and>
        (4 \<le> c \<longrightarrow>
           t ! nat (c * height * width + h * width + w) =
             (take (nat (channels * height * width)) tensor @
                replicate (nat (channels * height * width) - length tensor) (Finite 0)) !
               nat (c * height * width + h * width + w)) \<and>
        (\<forall>chan. channelOf c = Some chan \<longrightarrow>
           (chan \<notin> tile_channels tile \<longrightarrow>
              t ! nat (c * height * width + h * width + w) = Finite 0) \<and>
           (chan \<in> tile_channels tile \<longrightarrow>
              (\<forall>srcRow. tile_rows tile chan (h + tile_y tile) = Some srcRow \<longrightarrow>
                 t ! nat (c * height * width + h * width + w) = srcRow (w + tile_x tile)))))"
proof -
  assume a: "0 < width" "0 < height" "0 < channels" "channels * height * width < 2 ^ 31"
    and bnd_x: "- (2 ^ 31) \<le> tile_x tile" "tile_x tile + width \<le> 2 ^ 31"
    and bnd_y: "- (2 ^ 31) \<le> tile_y tile" "tile_y tile + height \<le> 2 ^ 31"
  define W H C where "W = nat width" and "H = nat height" and "C = nat channels"
  with a have eq: "width = int W" "height = int H" "channels = int C" by simp_all
  from a have "int (C * H * W) < 2 ^ 31" unfolding eq by simp
  then have small: "C * H * W < 2 ^ 31"
    by (simp only: of_nat_less_numeral_power_cancel_iff)
  from a have pos: "0 < W" "0 < H" "0 < C" unfolding eq by simp_all
  let ?t0 = "take (C * H * W) tensor @ replicate (C * H * W - length tensor) (Finite 0)"
  from tileToNCHWTensor_elements [OF pos small, of tile tensor] obtain t where
    t: "tileToNCHWTensor tile tensor (int W) (int H) (int C) = Inr t" "length t = C * H * W"
      "\<forall>c < C. \<forall>h < H. \<forall>w < W.
          t ! (c * H * W + h * W + w) =
            (case channelOf (int c) of
              None \<Rightarrow> ?t0 ! (c * H * W + h * W + w)
            | Some chan \<Rightarrow>
                if chan \<notin> tile_channels tile then Finite 0
                else
                  (case tile_rows tile chan (int32 (int h + tile_y tile)) of
                    None \<Rightarrow> ?t0 ! (c * H * W + h * W + w)
                  | Some srcRow \<Rightarrow> srcRow (int32 (int w + tile_x tile))))"
    by blast
  have "nat (c * height * width + h * width + w) < length t \<and>
        (4 \<le> c \<longrightarrow>
           t ! nat (c * height * width + h * width + w) =
             (take (nat (channels * height * width)) tensor @
                replicate (nat (channels * height * width) - length tensor) (Finite 0)) !
               nat (c * height * width + h * width + w)) \<and>
        (\<forall>chan. channelOf c = Some chan \<longrightarrow>
           (chan \<notin> tile_channels tile \<longrightarrow>
              t ! nat (c * height * width + h * width + w) = Finite 0) \<and>
           (chan \<in> tile_channels tile \<longrightarrow>
              (\<forall>srcRow. tile_rows tile chan (h + tile_y tile) = Some srcRow \<longrightarrow>
                 t ! nat (c * height * width + h * width + w) = srcRow (w + tile_x tile))))"
    if r: "0 \<le> c \<and> c < channels \<and> 0 \<le> h \<and> h < height \<and> 0 \<le> w \<and> w < width" for c h w
  proof -
    define c' h' w' where "c' = nat c" and "h' = nat h" and "w' = nat w"
    with r have ceq: "c = int c'" "h = int h'" "w = int w'" by simp_all
    from r have lt: "c' < C" "h' < H" "w' < W" unfolding ceq eq by simp_all
    have idx: "nat (c * height * width + h * width + w) = c' * H * W + h' * W + w'"
      unfolding ceq eq by (simp add: nat_add_distrib nat_mult_distrib flip: of_nat_mult of_nat_add)
    have n: "nat (channels * height * width) = C * H * W"
      unfolding eq by (simp flip: of_nat_mult)
    have row: "int32 (int h' + tile_y tile) = h + tile_y tile"
      using r bnd_y unfolding ceq by (intro int32_in_range) simp_all
    have col: "int32 (int w' + tile_x tile) = w + tile_x tile"
      using r bnd_x unfolding ceq by (intro int32_in_range) simp_all
    have el: "t ! (c' * H * W + h' * W + w') =
            (case channelOf c of
              None \<Rightarrow> ?t0 ! (c' * H * W + h' * W + w')
            | Some chan \<Rightarrow>
                if chan \<notin> tile_channels tile then Finite 0
                else
                  (case tile_rows tile chan (h + tile_y tile) of
                    None \<Rightarrow> ?t0 ! (c' * H * W + h' * W + w')
                  | Some srcRow \<Rightarrow> srcRow (w + tile_x tile)))"
      using t(3) lt row col unfolding ceq by (simp split: option.splits)
    have "c' * H * W + h' * W + w' < length t"
      using index_in_tensor [OF lt] t(2) by simp
    moreover have "4 \<le> c \<longrightarrow> t ! (c' * H * W + h' * W + w') = ?t0 ! (c' * H * W + h' * W + w')"
      using el channelOf_None [of c] r by auto
    moreover have "\<forall>chan. channelOf c = Some chan \<longrightarrow>
           (chan \<notin> tile_channels tile \<longrightarrow> t ! (c' * H * W + h' * W + w') = Finite 0) \<and>
           (chan \<in> tile_channels tile \<longrightarrow>
              (\<forall>srcRow. tile_rows tile chan (h + tile_y tile) = Some srcRow \<longrightarrow>
                 t ! (c' * H * W + h' * W + w') = srcRow (w + tile_x tile)))"
      using el by auto
    ultimately show ?thesis unfolding idx n by blast
  qed
  with t(1) show ?thesis unfolding eq by blast
qed


theorem tileToNCHWTensor_planes_witness:
  "(case tileToNCHWTensor exampleTile (replicate 21 (Finite 7)) 2 2 5 of
      Inl e \<Rightarrow> False
    | Inr t \<Rightarrow> t ! 3 = Finite 11 \<and> t ! 4 = Finite 0 \<and> t ! 18 = Finite 7)"
proof -
  have "(0 :: int) < 2" "(0 :: int) < 2" "(0 :: int) < 5" "(5 :: int) * 2 * 2 < 2 ^ 31"
    "- (2 ^ 31) \<le> tile_x exampleTile" "tile_x exampleTile + 2 \<le> 2 ^ 31"
    "- (2 ^ 31) \<le> tile_y exampleTile" "tile_y exampleTile + 2 \<le> 2 ^ 31"
    by (simp_all add: exampleTile_def)
  from tileToNCHWTensor_planes [OF this, of "replicate 21 (Finite 7)"] obtain t where
    run: "tileToNCHWTensor exampleTile (replicate 21 (Finite 7)) 2 2 5 = Inr t"
    and el: "\<And>c h w. 0 \<le> c \<and> c < 5 \<and> 0 \<le> h \<and> h < 2 \<and> 0 \<le> w \<and> w < 2 \<Longrightarrow>
        (4 \<le> c \<longrightarrow>
           t ! nat (c * 2 * 2 + h * 2 + w) =
             (take (nat (5 * 2 * 2)) (replicate 21 (Finite 7)) @
                replicate (nat (5 * 2 * 2) - length (replicate 21 (Finite 7))) (Finite 0)) !
               nat (c * 2 * 2 + h * 2 + w)) \<and>
        (\<forall>chan. channelOf c = Some chan \<longrightarrow>
           (chan \<notin> tile_channels exampleTile \<longrightarrow>
              t ! nat (c * 2 * 2 + h * 2 + w) = Finite 0) \<and>
           (chan \<in> tile_channels exampleTile \<longrightarrow>
              (\<forall>srcRow. tile_rows exampleTile chan (h + tile_y exampleTile) = Some srcRow \<longrightarrow>
                 t ! nat (c * 2 * 2 + h * 2 + w) = srcRow (w + tile_x exampleTile))))"
    by blast
  from el [of 0 1 1] have "t ! 3 = Finite 11"
    by (simp add: channelOf_def exampleTile_def)
  moreover from el [of 1 0 0] have "t ! 4 = Finite 0"
    by (simp add: channelOf_def exampleTile_def)
  moreover from el [of 4 1 0] have "t ! 18 = Finite 7"
    by simp
  ultimately show ?thesis using run by simp
qed

theorem tileToNCHWTensor_planes_counterexample:
  "(case tileToNCHWTensor emptyTile [] 65537 65536 1 of
      Inl e \<Rightarrow> False
    | Inr t \<Rightarrow> length t = 65536) \<and>
   \<not> (\<exists>t. tileToNCHWTensor emptyTile [] 65537 65536 1 = Inr t \<and>
        (\<forall>c h w. 0 \<le> c \<and> c < 1 \<and> 0 \<le> h \<and> h < 65536 \<and> 0 \<le> w \<and> w < 65537 \<longrightarrow>
           nat (c * 65536 * 65537 + h * 65537 + w) < length t \<and>
           (\<forall>chan. channelOf c = Some chan \<longrightarrow>
              (chan \<notin> tile_channels emptyTile \<longrightarrow>
                 t ! nat (c * 65536 * 65537 + h * 65537 + w) = Finite 0))))"
proof -
  have run: "(case tileToNCHWTensor emptyTile [] 65537 65536 1 of
      Inl e \<Rightarrow> False
    | Inr t \<Rightarrow> length t = 65536)"
    by (simp add: tileToNCHWTensor_def resize_def vector_max_size_def to_size_t_def int32_def
        channelOf_def emptyTile_def fillZero_def planeOffset_def)
  have "False"
    if "tileToNCHWTensor emptyTile [] 65537 65536 1 = Inr t"
      and el: "\<And>c h w. 0 \<le> c \<and> c < 1 \<and> 0 \<le> h \<and> h < 65536 \<and> 0 \<le> w \<and> w < 65537 \<Longrightarrow>
           nat (c * 65536 * 65537 + h * 65537 + w) < length t"
    for t
  proof -
    from run that(1) have "length t = 65536" by simp
    moreover from el [of 0 1 0] have "nat (0 * 65536 * 65537 + 1 * 65537 + 0) < length t"
      by simp
    ultimately show False by simp
  qed
  then have "\<not> (\<exists>t. tileToNCHWTensor emptyTile [] 65537 65536 1 = Inr t \<and>
        (\<forall>c h w. 0 \<le> c \<and> c < 1 \<and> 0 \<le> h \<and> h < 65536 \<and> 0 \<le> w \<and> w < 65537 \<longrightarrow>
           nat (c * 65536 * 65537 + h * 65537 + w) < length t \<and>
           (\<forall>chan. channelOf c = Some chan \<longrightarrow>
              (chan \<notin> tile_channels emptyTile \<longrightarrow>
                 t ! nat (c * 65536 * 65537 + h * 65537 + w) = Finite 0))))"
    by blast
  with run show ?thesis by blast
qed

end
